theory Spec2Isabelle
  imports Complex_Main "HOL-Library.Multiset" "HOL-Library.Product_Lexorder"
begin

section \<open>QM9 dataset pipeline (datasets/qm9.py)\<close>

text \<open>
  Conventions of the embedding.
  \<^item> Python exceptions are values of \<open>error\<close>; a function that can raise returns
    \<open>error + 'a\<close> with \<open>Inl\<close> for the exception.
  \<^item> float32/float64 quantities are idealised as \<open>real\<close>: no statement below depends on
    rounding.
  \<^item> A two-dimensional numpy array is a record of its column count and its rows, so that an
    array without rows still knows its width (\<open>np.zeros((0, 5))\<close>).
  \<^item> The \<open>2 \<times> E\<close> array \<open>edge_index\<close> is the list of its \<open>E\<close> columns, each a pair
    (row 0 entry, row 1 entry) = (source, destination).
  \<^item> Integer arrays hold \<open>int\<close>; a cast to a 32 bit dtype is the function \<open>int32\<close>
    (two's complement wrap-around), and arithmetic on 64 bit arrays goes through \<open>int64\<close>.
  \<^item> Routines of numpy, jax and rdkit are not part of the file under study; each is a small
    definition that follows the routine's documented behaviour, including the exception it
    raises, or a parameter where its result cannot be computed here (the seeded permutation).
\<close>

datatype error = ValueError | KeyError | IndexError

record 'a arr2 =
  ncols :: nat
  rows :: "'a list list"

definition nrows :: "'a arr2 \<Rightarrow> nat" where
  "nrows a = length (rows a)"

definition int32 :: "int \<Rightarrow> int" where
  "int32 v = (v + 2 ^ 31) mod 2 ^ 32 - 2 ^ 31"

subsection \<open>Class constants\<close>

definition HAR2EV :: real where
  "HAR2EV = 27.211386246"

definition KCALMOL2EV :: real where
  "KCALMOL2EV = 0.04336414"

definition TOTAL_SIZE :: nat where
  "TOTAL_SIZE = 130831"

definition TRAIN_SIZE :: nat where
  "TRAIN_SIZE = 110000"

definition VAL_SIZE :: nat where
  "VAL_SIZE = 10000"

definition TEST_SIZE :: nat where
  "TEST_SIZE = 10831"

definition TARGETS :: "string list" where
  "TARGETS = [''mu'', ''alpha'', ''homo'', ''lumo'', ''gap'', ''r2'', ''zpve'', ''U0'', ''U'',
     ''H'', ''G'', ''Cv'', ''U0_atom'', ''U_atom'', ''H_atom'', ''G_atom'', ''A'', ''B'', ''C'']"

subsection \<open>Target table: \<open>process\<close>, lines 125 to 135\<close>

text \<open>\<open>raw_targets[:, 3:]\<close> and \<open>raw_targets[:, :3]\<close>: column slices clamp at the width.\<close>

definition cols_from :: "nat \<Rightarrow> 'a arr2 \<Rightarrow> 'a arr2" where
  "cols_from k a = \<lparr>ncols = ncols a - k, rows = map (drop k) (rows a)\<rparr>"

definition cols_upto :: "nat \<Rightarrow> 'a arr2 \<Rightarrow> 'a arr2" where
  "cols_upto k a = \<lparr>ncols = min k (ncols a), rows = map (take k) (rows a)\<rparr>"

text \<open>\<open>np.concatenate([a, b], axis=1)\<close>: the row counts must agree.\<close>

definition concatenate_axis1 :: "'a arr2 \<Rightarrow> 'a arr2 \<Rightarrow> error + 'a arr2" where
  "concatenate_axis1 a b =
     (if nrows a = nrows b
      then Inr \<lparr>ncols = ncols a + ncols b, rows = map2 (@) (rows a) (rows b)\<rparr>
      else Inl ValueError)"

definition conversion_factors :: "real list" where
  "conversion_factors =
     [1, 1, HAR2EV, HAR2EV, HAR2EV, 1, HAR2EV, HAR2EV, HAR2EV,
      HAR2EV, HAR2EV, 1, KCALMOL2EV, KCALMOL2EV, KCALMOL2EV,
      KCALMOL2EV, 1, 1, 1]"

text \<open>
  \<open>a * v\<close> for a 2-d array and a vector: numpy broadcasting multiplies column-wise when
  the widths agree, stretches a one-column array, and raises otherwise.
\<close>

definition mul_broadcast :: "real arr2 \<Rightarrow> real list \<Rightarrow> error + real arr2" where
  "mul_broadcast a v =
     (if ncols a = length v
      then Inr \<lparr>ncols = length v, rows = map (\<lambda>r. map2 (*) r v) (rows a)\<rparr>
      else if ncols a = 1
      then Inr \<lparr>ncols = length v, rows = map (\<lambda>r. map (\<lambda>f. hd r * f) v) (rows a)\<rparr>
      else if length v = 1
      then Inr \<lparr>ncols = ncols a, rows = map (\<lambda>r. map (\<lambda>e. e * hd v) r) (rows a)\<rparr>
      else Inl ValueError)"

definition process_targets :: "real arr2 \<Rightarrow> error + real arr2" where
  "process_targets raw_targets =
     (case concatenate_axis1 (cols_from 3 raw_targets) (cols_upto 3 raw_targets) of
        Inl e \<Rightarrow> Inl e
      | Inr rearranged_targets \<Rightarrow> mul_broadcast rearranged_targets conversion_factors)"

subsection \<open>Records of the pipeline\<close>

text \<open>
  The dictionaries of the source share the keys \<open>pos\<close>, \<open>x\<close>, \<open>y\<close>, \<open>edge_index\<close> and
  \<open>edge_attr\<close>. \<open>'b\<close> is the element type of the feature arrays (bool when built, float
  after \<open>dataset_to_pytorch\<close>), \<open>'t\<close> the shape of the target: a vector for one molecule and
  for a padded batch, a 2-d array for a collated batch.
\<close>

record ('b, 't) graph =
  pos :: "real arr2"
  x :: "'b arr2"
  y :: 't
  edge_index :: "(int \<times> int) list"
  edge_attr :: "'b arr2"

record ('b, 't) mol_graph = "('b, 't) graph" +
  name :: string
  smiles :: string
  idx :: nat

record ('b, 't) batched_graph = "('b, 't) graph" +
  batch :: "int list"
  ptr :: "int list"

record ('b, 't) padded_graph = "('b, 't) graph" +
  graph_index :: "int list"
  padding_mask :: "real list"

subsection \<open>Raw structure records (the rdkit molecule as the parser reads it)\<close>

datatype bond_type = SINGLE | DOUBLE | TRIPLE | AROMATIC | OTHER

record bond =
  begin_atom_idx :: nat
  end_atom_idx :: nat
  bond_kind :: bond_type

record atom =
  atomic_num :: nat
  atom_position :: "real \<times> real \<times> real"

record mol =
  atoms :: "atom list"
  bonds :: "bond list"
  mol_name :: string
  mol_smiles :: string

subsection \<open>Molecule parser: \<open>process\<close>, lines 137 to 202\<close>

definition atom_types :: "nat \<rightharpoonup> nat" where
  "atom_types = [1 \<mapsto> 0, 6 \<mapsto> 1, 7 \<mapsto> 2, 8 \<mapsto> 3, 9 \<mapsto> 4]"

definition len_atom_types :: nat where
  "len_atom_types = 5"

text \<open>
  The loop \<open>x[j, atom_types[atom.GetAtomicNum()]] = 1\<close> over the atoms: a dictionary
  lookup that misses raises \<open>KeyError\<close> at the first such atom.
\<close>

fun one_hot_atoms :: "atom list \<Rightarrow> error + bool list list" where
  "one_hot_atoms [] = Inr []"
| "one_hot_atoms (a # as) =
     (case atom_types (atomic_num a) of
        None \<Rightarrow> Inl KeyError
      | Some k \<Rightarrow>
          (case one_hot_atoms as of
             Inl e \<Rightarrow> Inl e
           | Inr rs \<Rightarrow> Inr ((replicate len_atom_types False)[k := True] # rs)))"

definition bond_type_row :: "bond_type \<Rightarrow> bool list" where
  "bond_type_row t =
     (if t = SINGLE then [True, False, False, False]
      else if t = DOUBLE then [False, True, False, False]
      else if t = TRIPLE then [False, False, True, False]
      else if t = AROMATIC then [False, False, False, True]
      else [False, False, False, False])"

fun edge_indices :: "bond list \<Rightarrow> (int \<times> int) list" where
  "edge_indices [] = []"
| "edge_indices (b # bs) =
     (int (begin_atom_idx b), int (end_atom_idx b)) #
     (int (end_atom_idx b), int (begin_atom_idx b)) # edge_indices bs"

fun edge_attrs :: "bond list \<Rightarrow> bool list list" where
  "edge_attrs [] = []"
| "edge_attrs (b # bs) =
     bond_type_row (bond_kind b) # bond_type_row (bond_kind b) # edge_attrs bs"

text \<open>
  \<open>np.lexsort((a, b))\<close>: the indices that sort by the last key \<open>b\<close> first and by \<open>a\<close>
  among equal \<open>b\<close>, stably. \<open>sort_key\<close> is a stable insertion sort and pairs are ordered
  lexicographically.
\<close>

definition lexsort :: "'a::linorder list \<Rightarrow> 'b::linorder list \<Rightarrow> nat list" where
  "lexsort a b = sort_key (\<lambda>i. (b ! i, a ! i)) [0..<length b]"

text \<open>\<open>arr[sort_indices]\<close>: gathering by an index list.\<close>

definition gather :: "'a list \<Rightarrow> nat list \<Rightarrow> 'a list" where
  "gather xs is = map (\<lambda>i. xs ! i) is"

text \<open>
  One iteration of the loop body for a record that is not skipped. A molecule without
  bonds makes \<open>np.array([]).T\<close> one-dimensional, and \<open>edge_index[0, :]\<close> raises
  \<open>IndexError\<close>.
\<close>

definition process_mol :: "real arr2 \<Rightarrow> nat \<Rightarrow> mol \<Rightarrow> error + (bool, real list) mol_graph" where
  "process_mol targets i m =
     (let pos_rows = map (\<lambda>a. case atom_position a of (px, py, pz) \<Rightarrow> [px, py, pz]) (atoms m) in
      case one_hot_atoms (atoms m) of
        Inl e \<Rightarrow> Inl e
      | Inr x_rows \<Rightarrow>
          if \<not> i < nrows targets then Inl IndexError
          else if bonds m = [] then Inl IndexError
          else
            let edge_index0 = edge_indices (bonds m);
                edge_attr0 = edge_attrs (bonds m);
                sort_indices = lexsort (map fst edge_index0) (map snd edge_index0)
            in Inr \<lparr>pos = \<lparr>ncols = 3, rows = pos_rows\<rparr>,
                     x = \<lparr>ncols = len_atom_types, rows = x_rows\<rparr>,
                     y = rows targets ! i,
                     edge_index = gather edge_index0 sort_indices,
                     edge_attr = \<lparr>ncols = 4, rows = gather edge_attr0 sort_indices\<rparr>,
                     name = mol_name m,
                     smiles = mol_smiles m,
                     idx = i\<rparr>)"

text \<open>
  The loop \<open>for i, mol in enumerate(suppl)\<close>: an unparsable record (\<open>None\<close>) or one
  whose position is in \<open>skip_indices\<close> is passed over; an exception ends the loop.
\<close>

fun process_loop ::
  "real arr2 \<Rightarrow> nat set \<Rightarrow> nat \<Rightarrow> mol option list \<Rightarrow> error + (bool, real list) mol_graph list" where
  "process_loop targets skip_indices i [] = Inr []"
| "process_loop targets skip_indices i (m # ms) =
     (if m = None \<or> i \<in> skip_indices then process_loop targets skip_indices (Suc i) ms
      else case process_mol targets i (the m) of
        Inl e \<Rightarrow> Inl e
      | Inr g \<Rightarrow>
          (case process_loop targets skip_indices (Suc i) ms of
             Inl e \<Rightarrow> Inl e
           | Inr gs \<Rightarrow> Inr (g # gs)))"

definition process ::
  "real arr2 \<Rightarrow> nat set \<Rightarrow> mol option list \<Rightarrow> error + (bool, real list) mol_graph list" where
  "process raw_targets skip_indices suppl =
     (case process_targets raw_targets of
        Inl e \<Rightarrow> Inl e
      | Inr targets \<Rightarrow> process_loop targets skip_indices 0 suppl)"

text \<open>An array is well shaped when every row has the declared width.\<close>

definition well_shaped :: "'a arr2 \<Rightarrow> bool" where
  "well_shaped a = list_all (\<lambda>r. length r = ncols a) (rows a)"

subsection \<open>Dataset object: \<open>__init__\<close>, \<open>apply_split\<close>, \<open>__getitem__\<close>\<close>

record 'b dataset =
  data :: "('b, real list) mol_graph list"
  target_index :: "nat option"
  split :: "string option"

text \<open>\<open>TARGETS.index(target)\<close>: position of the first occurrence, \<open>ValueError\<close> if absent.\<close>

fun list_index :: "'a list \<Rightarrow> 'a \<Rightarrow> nat option" where
  "list_index [] v = None"
| "list_index (u # us) v =
     (if u = v then Some 0 else map_option Suc (list_index us v))"

definition init_target_index :: "string option \<Rightarrow> error + nat option" where
  "init_target_index target =
     (case target of
        None \<Rightarrow> Inr None
      | Some t \<Rightarrow> (case list_index TARGETS t of None \<Rightarrow> Inl ValueError | Some k \<Rightarrow> Inr (Some k)))"

text \<open>
  \<open>perm[:a]\<close>, \<open>perm[a:a + b]\<close>, \<open>perm[a + b:]\<close>. The permutation itself comes from
  numpy (\<open>RandomState(seed=42).permutation(arange(TOTAL_SIZE))\<close>, a Mersenne twister); it
  enters as the parameters \<open>random_state\<close> (a fresh generator made from a seed) and
  \<open>permutation\<close> (the array that generator returns).
\<close>

definition split_blocks :: "nat \<Rightarrow> nat \<Rightarrow> nat list \<Rightarrow> nat list \<times> nat list \<times> nat list" where
  "split_blocks train_size val_size perm =
     (take train_size perm, take val_size (drop train_size perm),
      drop (train_size + val_size) perm)"

definition split_indices ::
  "(nat \<Rightarrow> 's) \<Rightarrow> ('s \<Rightarrow> nat list \<Rightarrow> nat list) \<Rightarrow> nat list \<times> nat list \<times> nat list" where
  "split_indices random_state permutation =
     split_blocks TRAIN_SIZE VAL_SIZE (permutation (random_state 42) [0..<TOTAL_SIZE])"

text \<open>\<open>[self.data[i] for i in idx]\<close> with non-negative indices: out of range raises.\<close>

definition select_rows :: "'a list \<Rightarrow> nat list \<Rightarrow> error + 'a list" where
  "select_rows xs is =
     (if list_all (\<lambda>i. i < length xs) is then Inr (gather xs is) else Inl IndexError)"

definition apply_split ::
  "(nat \<Rightarrow> 's) \<Rightarrow> ('s \<Rightarrow> nat list \<Rightarrow> nat list) \<Rightarrow> 'b dataset \<Rightarrow> error + 'b dataset" where
  "apply_split random_state permutation self =
     (case split_indices random_state permutation of
        (train_idx, val_idx, test_idx) \<Rightarrow>
          if split self = Some ''train''
          then (case select_rows (data self) train_idx of
                  Inl e \<Rightarrow> Inl e | Inr rs \<Rightarrow> Inr (self\<lparr>data := rs\<rparr>))
          else if split self = Some ''val''
          then (case select_rows (data self) val_idx of
                  Inl e \<Rightarrow> Inl e | Inr rs \<Rightarrow> Inr (self\<lparr>data := rs\<rparr>))
          else if split self = Some ''test''
          then (case select_rows (data self) test_idx of
                  Inl e \<Rightarrow> Inl e | Inr rs \<Rightarrow> Inr (self\<lparr>data := rs\<rparr>))
          else Inl ValueError)"

text \<open>
  \<open>__getitem__\<close> returns the stored dictionary itself; assigning to \<open>item['y']\<close> therefore
  changes the entry of \<open>self.data\<close>. The model returns the item together with the new
  state of the dataset. A negative index counts from the end, as for every Python list.
\<close>

definition getitem ::
  "'b dataset \<Rightarrow> int \<Rightarrow> error + (('b, real list) mol_graph \<times> 'b dataset)" where
  "getitem self i =
     (let n = int (length (data self));
          j = (if i < 0 then n + i else i)
      in if \<not> (0 \<le> j \<and> j < n) then Inl IndexError
         else
           let item = data self ! nat j in
           case target_index self of
             None \<Rightarrow> Inr (item, self)
           | Some t \<Rightarrow>
               if length (y item) > 1
               then (let item' = item\<lparr>y := take 1 (drop t (y item))\<rparr>
                     in Inr (item', self\<lparr>data := (data self)[nat j := item']\<rparr>))
               else Inr (item, self))"

subsection \<open>Batch collation: \<open>collate_fn\<close>\<close>

definition int64 :: "int \<Rightarrow> int" where
  "int64 v = (v + 2 ^ 63) mod 2 ^ 64 - 2 ^ 63"

text \<open>
  \<open>np.concatenate(arrays, axis=0)\<close> raises for an empty list and for arrays of different
  widths; \<open>np.stack\<close> of vectors raises for an empty list and for different lengths.
\<close>

definition concatenate_axis0 :: "'a arr2 list \<Rightarrow> error + 'a arr2" where
  "concatenate_axis0 arrays =
     (case arrays of
        [] \<Rightarrow> Inl ValueError
      | a # _ \<Rightarrow>
          if list_all (\<lambda>b. ncols b = ncols a) arrays
          then Inr \<lparr>ncols = ncols a, rows = concat (map rows arrays)\<rparr>
          else Inl ValueError)"

definition stack :: "'a list list \<Rightarrow> error + 'a arr2" where
  "stack vectors =
     (case vectors of
        [] \<Rightarrow> Inl ValueError
      | v # _ \<Rightarrow>
          if list_all (\<lambda>u. length u = length v) vectors
          then Inr \<lparr>ncols = length v, rows = vectors\<rparr>
          else Inl ValueError)"

text \<open>
  The loop over \<open>enumerate(batch)\<close> with its counter \<open>i\<close> and the running \<open>cum_nodes\<close>;
  it returns what it appends to \<open>batch_idx\<close>, \<open>edge_index_batch\<close> and \<open>ptr\<close>. The lists
  \<open>pos\<close>, \<open>x\<close>, \<open>y\<close> and \<open>edge_attr_batch\<close> receive the items' arrays unchanged. The edge
  arrays are 64 bit (\<open>astype(int)\<close>), so the offset addition is taken in \<open>int64\<close>.
\<close>

fun collate_loop ::
  "nat \<Rightarrow> int \<Rightarrow> ('b, real list) mol_graph list \<Rightarrow> int list \<times> (int \<times> int) list list \<times> int list" where
  "collate_loop i cum_nodes [] = ([], [], [])"
| "collate_loop i cum_nodes (item # items) =
     (let num_nodes = nrows (x item);
          edge_index' = map (\<lambda>(s, d). (int64 (s + cum_nodes), int64 (d + cum_nodes)))
                          (edge_index item)
      in case collate_loop (Suc i) (cum_nodes + int num_nodes) items of
           (batch_idx, edge_index_batch, ptr_tail) \<Rightarrow>
             (replicate num_nodes (int i) @ batch_idx,
              edge_index' # edge_index_batch,
              (cum_nodes + int num_nodes) # ptr_tail))"

text \<open>The argument is called \<open>batch\<close> in the source; that name is a field here.\<close>

definition collate_fn ::
  "('b, real list) mol_graph list \<Rightarrow> error + ('b, real arr2) batched_graph" where
  "collate_fn items =
     (case collate_loop 0 0 items of
        (batch_idx, edge_index_batch, ptr_tail) \<Rightarrow>
          case concatenate_axis0 (map pos items) of
            Inl e \<Rightarrow> Inl e
          | Inr pos' \<Rightarrow>
          case concatenate_axis0 (map x items) of
            Inl e \<Rightarrow> Inl e
          | Inr x' \<Rightarrow>
          case stack (map y items) of
            Inl e \<Rightarrow> Inl e
          | Inr y' \<Rightarrow>
          case concatenate_axis0 (map edge_attr items) of
            Inl e \<Rightarrow> Inl e
          | Inr edge_attr' \<Rightarrow>
              Inr \<lparr>pos = pos', x = x', y = y',
                   edge_index = concat edge_index_batch,
                   edge_attr = edge_attr',
                   batch = map int32 batch_idx,
                   ptr = map int32 (0 # ptr_tail)\<rparr>)"

text \<open>
  What the data model asks of a molecule graph: atom ids in \<open>edge_index\<close> index the atom
  rows, and the arrays have the widths the parser gives them, with \<open>k\<close> target entries.
\<close>

definition wf_mol :: "nat \<Rightarrow> ('b, real list) mol_graph \<Rightarrow> bool" where
  "wf_mol k g \<longleftrightarrow>
     list_all (\<lambda>(s, d). 0 \<le> s \<and> s < int (nrows (x g)) \<and> 0 \<le> d \<and> d < int (nrows (x g)))
       (edge_index g) \<and>
     ncols (pos g) = 3 \<and> ncols (x g) = len_atom_types \<and> ncols (edge_attr g) = 4 \<and>
     length (y g) = k"

subsection \<open>Static shape padding: \<open>QM9GraphTransform\<close>\<close>

text \<open>
  \<open>int(r)\<close> truncates towards zero. The argument \<open>0.8 * max_batch_nodes - n_nodes + 1\<close> is
  a double in the source and an exact real here; both truncate to the same integer for
  capacities below \<open>2^50\<close>, since the exact value is an integer or at least \<open>0.2\<close> away
  from one.
\<close>

definition py_int :: "real \<Rightarrow> int" where
  "py_int r = (if 0 \<le> r then \<lfloor>r\<rfloor> else \<lceil>r\<rceil>)"

text \<open>
  \<open>jnp.pad(a, ((0, k), (0, 0)))\<close> appends \<open>k\<close> zero rows; \<open>jnp.pad\<close> rejects a negative
  width with \<open>ValueError\<close> (``index can't contain negative values'').
\<close>

definition jnp_pad_rows :: "int \<Rightarrow> 'a::zero arr2 \<Rightarrow> error + 'a arr2" where
  "jnp_pad_rows k a =
     (if k < 0 then Inl ValueError
      else Inr (a\<lparr>rows := rows a @ replicate (nat k) (replicate (ncols a) 0)\<rparr>))"

text \<open>
  \<open>jnp.pad(edge_index, ((0, 0), (0, k)), constant_values=c)\<close> appends \<open>k\<close> columns holding
  \<open>c\<close> in both rows.
\<close>

definition jnp_pad_edge_index ::
  "int \<Rightarrow> int \<Rightarrow> (int \<times> int) list \<Rightarrow> error + (int \<times> int) list" where
  "jnp_pad_edge_index k c es =
     (if k < 0 then Inl ValueError else Inr (es @ replicate (nat k) (c, c)))"

text \<open>\<open>edge_index.max()\<close> over both rows; a reduction of an empty array raises.\<close>

definition jnp_max :: "(int \<times> int) list \<Rightarrow> error + int" where
  "jnp_max es = (if es = [] then Inl ValueError else Inr (Max (set (map fst es @ map snd es))))"

text \<open>
  The transform. \<open>jnp.append(a, 0)\<close> without an axis flattens \<open>a\<close>, so the target and the
  mask are vectors. \<open>graph_index[-1]\<close> of an empty array raises \<open>IndexError\<close>. Arithmetic
  on the 32 bit arrays wraps.
\<close>

definition qm9_transform ::
  "int \<Rightarrow> int \<Rightarrow> ('b::zero, real arr2) batched_graph \<Rightarrow> error + ('b, real list) padded_graph" where
  "qm9_transform max_batch_nodes max_batch_edges d =
     (let edge_index0 = map (\<lambda>(s, t). (int32 s, int32 t)) (edge_index d);
          graph_index0 = map int32 (batch d);
          n_nodes = nrows (x d);
          n_edges = length edge_index0;
          n_node_pad = py_int (0.8 * real_of_int max_batch_nodes - real n_nodes + 1);
          n_edge_pad = py_int (0.8 * real_of_int max_batch_edges - real n_edges + 1)
      in case jnp_pad_rows n_node_pad (pos d) of
           Inl e \<Rightarrow> Inl e
         | Inr pos' \<Rightarrow>
         case jnp_pad_rows n_node_pad (x d) of
           Inl e \<Rightarrow> Inl e
         | Inr x' \<Rightarrow>
         case jnp_max edge_index0 of
           Inl e \<Rightarrow> Inl e
         | Inr m \<Rightarrow>
         case jnp_pad_edge_index n_edge_pad (int32 (m + 1)) edge_index0 of
           Inl e \<Rightarrow> Inl e
         | Inr edge_index' \<Rightarrow>
         case jnp_pad_rows n_edge_pad (edge_attr d) of
           Inl e \<Rightarrow> Inl e
         | Inr edge_attr' \<Rightarrow>
             if graph_index0 = [] then Inl IndexError
             else Inr \<lparr>pos = pos', x = x',
                       y = concat (rows (y d)) @ [0],
                       edge_index = edge_index',
                       edge_attr = edge_attr',
                       graph_index = graph_index0 @
                         replicate (nat n_node_pad) (int32 (last graph_index0 + 1)),
                       padding_mask = replicate (length (concat (rows (y d)))) 1 @ [0]\<rparr>)"

text \<open>
  The capacity threshold of the specification: the real node and edge counts do not exceed
  \<open>int(0.8 * max) + 1\<close>.
\<close>

definition within_capacity :: "int \<Rightarrow> int \<Rightarrow> ('b, 't) batched_graph \<Rightarrow> bool" where
  "within_capacity max_batch_nodes max_batch_edges d \<longleftrightarrow>
     int (nrows (x d)) \<le> py_int (0.8 * real_of_int max_batch_nodes) + 1 \<and>
     int (length (edge_index d)) \<le> py_int (0.8 * real_of_int max_batch_edges) + 1"

subsection \<open>A three-atom molecule used in the examples\<close>

definition example_targets :: "real arr2" where
  "example_targets = \<lparr>ncols = 19, rows = [[1, 2, 3, 4, 5, 6, 7, 8, 9, 10, 11, 12, 13, 14, 15, 16, 17, 18, 19]]\<rparr>"

definition example_mol :: mol where
  "example_mol = \<lparr>atoms = [\<lparr>atomic_num = 6, atom_position = (0, 0, 0)\<rparr>,
                           \<lparr>atomic_num = 6, atom_position = (1, 0, 0)\<rparr>,
                           \<lparr>atomic_num = 8, atom_position = (2, 0, 0)\<rparr>],
                  bonds = [\<lparr>begin_atom_idx = 0, end_atom_idx = 1, bond_kind = SINGLE\<rparr>,
                           \<lparr>begin_atom_idx = 1, end_atom_idx = 2, bond_kind = DOUBLE\<rparr>],
                  mol_name = ''gdb_x'', mol_smiles = ''CC=O''\<rparr>"

definition example_bad_mol :: mol where
  "example_bad_mol = \<lparr>atoms = [\<lparr>atomic_num = 16, atom_position = (0, 0, 0)\<rparr>,
                               \<lparr>atomic_num = 1, atom_position = (1, 0, 0)\<rparr>,
                               \<lparr>atomic_num = 1, atom_position = (0, 1, 0)\<rparr>],
                      bonds = [\<lparr>begin_atom_idx = 0, end_atom_idx = 1, bond_kind = SINGLE\<rparr>,
                               \<lparr>begin_atom_idx = 0, end_atom_idx = 2, bond_kind = SINGLE\<rparr>],
                      mol_name = ''h2s'', mol_smiles = ''S''\<rparr>"

definition example_graph :: "(real, real list) mol_graph" where
  "example_graph =
     \<lparr>pos = \<lparr>ncols = 3, rows = [[0, 0, 0], [1, 0, 0], [2, 0, 0]]\<rparr>,
      x = \<lparr>ncols = 5, rows = [[0, 1, 0, 0, 0], [0, 1, 0, 0, 0], [0, 0, 0, 1, 0]]\<rparr>,
      y = [1, 2, 3, 4, 5, 6, 7, 8, 9, 10, 11, 12, 13, 14, 15, 16, 17, 18, 19],
      edge_index = [(1, 0), (0, 1), (2, 1), (1, 2)],
      edge_attr = \<lparr>ncols = 4, rows = [[1, 0, 0, 0], [1, 0, 0, 0], [0, 1, 0, 0], [0, 1, 0, 0]]\<rparr>,
      name = ''gdb_x'', smiles = ''CC=O'', idx = 0\<rparr>"

definition example_dataset :: "real dataset" where
  "example_dataset = \<lparr>data = [example_graph], target_index = Some 1, split = None\<rparr>"

definition example_batch :: "(real, real arr2) batched_graph" where
  "example_batch =
     \<lparr>pos = \<lparr>ncols = 3, rows = [[0, 0, 0], [1, 0, 0], [2, 0, 0]]\<rparr>,
      x = \<lparr>ncols = 5, rows = [[0, 1, 0, 0, 0], [0, 1, 0, 0, 0], [0, 0, 0, 1, 0]]\<rparr>,
      y = \<lparr>ncols = 1, rows = [[2]]\<rparr>,
      edge_index = [(1, 0), (0, 1), (2, 1), (1, 2)],
      edge_attr = \<lparr>ncols = 4, rows = [[1, 0, 0, 0], [1, 0, 0, 0], [0, 1, 0, 0], [0, 1, 0, 0]]\<rparr>,
      batch = [0, 0, 0], ptr = [0, 3]\<rparr>"

text \<open>A batch of one molecule whose last atom has no bond.\<close>

definition example_batch_unbonded :: "(real, real arr2) batched_graph" where
  "example_batch_unbonded =
     \<lparr>pos = \<lparr>ncols = 3, rows = [[0, 0, 0], [1, 0, 0], [5, 0, 0]]\<rparr>,
      x = \<lparr>ncols = 5, rows = [[0, 1, 0, 0, 0], [0, 1, 0, 0, 0], [0, 0, 0, 1, 0]]\<rparr>,
      y = \<lparr>ncols = 1, rows = [[2]]\<rparr>,
      edge_index = [(1, 0), (0, 1)],
      edge_attr = \<lparr>ncols = 4, rows = [[1, 0, 0, 0], [1, 0, 0, 0]]\<rparr>,
      batch = [0, 0, 0], ptr = [0, 3]\<rparr>"

section \<open>Properties\<close>

lemma length_conversion_factors: "length conversion_factors = 19"
  by (simp add: conversion_factors_def)

text \<open>
  C7. For a raw label table of 19 columns the normaliser returns a table of the same
  shape in which entry \<open>j\<close> of every row is entry \<open>j + 3\<close> (cyclically) of the raw row,
  so the first three raw columns end up last, multiplied by the factor of column \<open>j\<close>;
  the factor is 1 for mu, alpha, r2, Cv, A, B, C, the Hartree factor for homo, lumo, gap,
  zpve, U0, U, H, G, and the kcal/mol factor for the four atomisation energies.
\<close>

theorem process_targets_row:
  assumes "ncols raw = 19" and "well_shaped raw"
  shows "\<exists>t. process_targets raw = Inr t \<and> ncols t = 19 \<and> nrows t = nrows raw \<and>
     (\<forall>i < nrows raw.
        rows t ! i = map2 (*) (drop 3 (rows raw ! i) @ take 3 (rows raw ! i)) conversion_factors \<and>
        (\<forall>j < 19. rows t ! i ! j = rows raw ! i ! ((j + 3) mod 19) * conversion_factors ! j)) \<and>
     (\<forall>j < 19. conversion_factors ! j =
        (if j \<in> {0, 1, 5, 11, 16, 17, 18} then 1
         else if j \<in> {2, 3, 4, 6, 7, 8, 9, 10} then HAR2EV else KCALMOL2EV))"
proof -
  let ?t = "\<lparr>ncols = 19, rows = map (\<lambda>r. map2 (*) r conversion_factors)
               (map2 (@) (map (drop 3) (rows raw)) (map (take 3) (rows raw)))\<rparr>"
  have eq: "process_targets raw = Inr ?t"
    using assms(1)
    by (simp add: process_targets_def concatenate_axis1_def cols_from_def cols_upto_def
        mul_broadcast_def nrows_def length_conversion_factors)
  have len: "\<And>i. i < nrows raw \<Longrightarrow> length (rows raw ! i) = 19"
    using assms by (simp add: well_shaped_def nrows_def list_all_length)
  have row: "rows ?t ! i = map2 (*) (drop 3 (rows raw ! i) @ take 3 (rows raw ! i)) conversion_factors"
    if "i < nrows raw" for i
    using that by (simp add: nrows_def)
  have ent: "rows ?t ! i ! j = rows raw ! i ! ((j + 3) mod 19) * conversion_factors ! j"
    if "i < nrows raw" and "j < 19" for i j
  proof -
    have l: "length (rows raw ! i) = 19" using len that by simp
    have "(drop 3 (rows raw ! i) @ take 3 (rows raw ! i)) ! j = rows raw ! i ! ((j + 3) mod 19)"
    proof (cases "j < 16")
      case True
      then show ?thesis using l by (simp add: nth_append add.commute)
    next
      case False
      then have "(j + 3) mod 19 = j - 16" using that(2) by (simp add: mod_if)
      then show ?thesis using l False that(2) by (simp add: nth_append)
    qed
    then show ?thesis
      using row[OF that(1)] l that(2) by (simp add: length_conversion_factors)
  qed
  have fac: "\<forall>j < 19. conversion_factors ! j =
        (if j \<in> {0, 1, 5, 11, 16, 17, 18} then 1
         else if j \<in> {2, 3, 4, 6, 7, 8, 9, 10} then HAR2EV else KCALMOL2EV)"
  proof (intro allI impI)
    fix j :: nat assume "j < 19"
    then have "j \<in> {0, 1, 2, 3, 4, 5, 6, 7, 8, 9, 10, 11, 12, 13, 14, 15, 16, 17, 18}"
      by simp arith
    then show "conversion_factors ! j =
        (if j \<in> {0, 1, 5, 11, 16, 17, 18} then 1
         else if j \<in> {2, 3, 4, 6, 7, 8, 9, 10} then HAR2EV else KCALMOL2EV)"
      by (elim insertE emptyE) (simp_all add: conversion_factors_def)
  qed
  show ?thesis
    using eq row ent fac by (intro exI[of _ ?t]) (simp add: nrows_def)
qed

theorem process_targets_row_witness:
  "\<exists>t. process_targets \<lparr>ncols = 19, rows = [[1, 2, 3, 4, 5, 6, 7, 8, 9, 10, 11, 12, 13, 14, 15, 16, 17, 18, 19]]\<rparr> = Inr t \<and>
     rows t ! 0 ! 0 = 4 \<and> rows t ! 0 ! 2 = 6 * HAR2EV \<and> rows t ! 0 ! 12 = 16 * KCALMOL2EV \<and>
     rows t ! 0 ! 16 = 1 \<and> rows t ! 0 ! 18 = 3"
proof -
  let ?raw = "\<lparr>ncols = 19, rows = [[1, 2, 3, 4, 5, 6, 7, 8, 9, 10, 11, 12, 13, 14, 15, 16, 17, 18, 19 :: real]]\<rparr>"
  have "ncols ?raw = 19" and "well_shaped ?raw"
    by (simp_all add: well_shaped_def)
  from process_targets_row[OF this] obtain t where
    t: "process_targets ?raw = Inr t"
    and r: "\<forall>i < nrows ?raw.
        rows t ! i = map2 (*) (drop 3 (rows ?raw ! i) @ take 3 (rows ?raw ! i)) conversion_factors \<and>
        (\<forall>j < 19. rows t ! i ! j = rows ?raw ! i ! ((j + 3) mod 19) * conversion_factors ! j)"
    by blast
  have "rows t ! 0 = map2 (*) (drop 3 (rows ?raw ! 0) @ take 3 (rows ?raw ! 0)) conversion_factors"
    using r by (simp add: nrows_def)
  then show ?thesis using t by (simp add: conversion_factors_def)
qed

subsection \<open>The parser\<close>

lemma length_edge_indices: "length (edge_indices bs) = 2 * length bs"
  by (induction bs) auto

lemma length_edge_attrs: "length (edge_attrs bs) = 2 * length bs"
  by (induction bs) auto

lemma mset_lexsort: "mset (lexsort a b) = mset [0..<length b]"
  by (simp add: lexsort_def)

lemma set_lexsort: "set (lexsort a b) = {0..<length b}"
  by (simp add: lexsort_def)

lemma length_lexsort: "length (lexsort a b) = length b"
  by (simp add: lexsort_def)

lemma sorted_gather_lexsort:
  "sorted (map (\<lambda>(s, d). (d, s)) (gather es (lexsort (map fst es) (map snd es))))"
proof -
  let ?k = "\<lambda>i. (map snd es ! i, map fst es ! i)"
  let ?p = "lexsort (map fst es) (map snd es)"
  have "map (\<lambda>(s, d). (d, s)) (gather es ?p) = map ?k ?p"
    by (auto simp: gather_def set_lexsort split: prod.splits)
  moreover have "sorted (map ?k ?p)"
    by (simp add: lexsort_def)
  ultimately show ?thesis by simp
qed

lemma process_loop_member:
  "process_loop targets skip i suppl = Inr gs \<Longrightarrow> g \<in> set gs \<Longrightarrow>
   \<exists>k m. Some m \<in> set suppl \<and> process_mol targets k m = Inr g"
proof (induction suppl arbitrary: i gs)
  case Nil
  then show ?case by simp
next
  case (Cons r rs)
  show ?case
  proof (cases "r = None \<or> i \<in> skip")
    case True
    with Cons.prems have "process_loop targets skip (Suc i) rs = Inr gs" by simp
    from Cons.IH[OF this Cons.prems(2)] show ?thesis by auto
  next
    case False
    then obtain m where r: "r = Some m" by auto
    from Cons.prems(1) False obtain g0 gs0 where
      g0: "process_mol targets i m = Inr g0"
      and gs0: "process_loop targets skip (Suc i) rs = Inr gs0"
      and gs: "gs = g0 # gs0"
      by (auto simp: r split: sum.splits)
    show ?thesis
    proof (cases "g = g0")
      case True
      then show ?thesis using g0 r by auto
    next
      case False
      then have "g \<in> set gs0" using Cons.prems(2) gs by simp
      from Cons.IH[OF gs0 this] show ?thesis by auto
    qed
  qed
qed

lemma process_mol_edges:
  assumes "process_mol targets i m = Inr g"
  shows "bonds m \<noteq> [] \<and>
    edge_index g = gather (edge_indices (bonds m))
       (lexsort (map fst (edge_indices (bonds m))) (map snd (edge_indices (bonds m)))) \<and>
    rows (edge_attr g) = gather (edge_attrs (bonds m))
       (lexsort (map fst (edge_indices (bonds m))) (map snd (edge_indices (bonds m))))"
  using assms
  by (auto simp: process_mol_def Let_def split: sum.splits if_splits)


lemma edge_indices_partner:
  "k < length (edge_indices bs) \<Longrightarrow>
   \<exists>j < length (edge_indices bs).
     edge_indices bs ! j = prod.swap (edge_indices bs ! k) \<and> edge_attrs bs ! j = edge_attrs bs ! k"
proof (induction bs arbitrary: k)
  case Nil
  then show ?case by simp
next
  case (Cons b bs)
  show ?case
  proof (cases k)
    case 0
    have "Suc 0 < length (edge_indices (b # bs)) \<and>
      edge_indices (b # bs) ! Suc 0 = prod.swap (edge_indices (b # bs) ! 0) \<and>
      edge_attrs (b # bs) ! Suc 0 = edge_attrs (b # bs) ! 0"
      by simp
    then show ?thesis unfolding 0 by (rule exI)
  next
    case (Suc k1)
    show ?thesis
    proof (cases k1)
      case 0
      have "0 < length (edge_indices (b # bs)) \<and>
        edge_indices (b # bs) ! 0 = prod.swap (edge_indices (b # bs) ! Suc 0) \<and>
        edge_attrs (b # bs) ! 0 = edge_attrs (b # bs) ! Suc 0"
        by simp
      then show ?thesis unfolding Suc 0 by (rule exI)
    next
      case (Suc k2)
      with Cons.prems \<open>k = Suc k1\<close> have "k2 < length (edge_indices bs)" by simp
      from Cons.IH[OF this] obtain j where
        j: "j < length (edge_indices bs)"
        "edge_indices bs ! j = prod.swap (edge_indices bs ! k2)"
        "edge_attrs bs ! j = edge_attrs bs ! k2" by blast
      have "Suc (Suc j) < length (edge_indices (b # bs)) \<and>
        edge_indices (b # bs) ! Suc (Suc j) = prod.swap (edge_indices (b # bs) ! Suc (Suc k2)) \<and>
        edge_attrs (b # bs) ! Suc (Suc j) = edge_attrs (b # bs) ! Suc (Suc k2)"
        using j by simp
      then show ?thesis unfolding \<open>k = Suc k1\<close> Suc by (rule exI)
    qed
  qed
qed

text \<open>
  C3. Every graph the parser returns has its edges sorted by destination, then source, and
  its edges and edge features are the unsorted lists gathered by one and the same
  permutation, so rows stay aligned; the edges (0,1),(1,0),(1,2),(2,1) come out as
  (1,0),(0,1),(2,1),(1,2).
\<close>

theorem process_edges_sorted:
  assumes "process raw_targets skip_indices suppl = Inr gs" and "g \<in> set gs"
  shows "sorted (map (\<lambda>(s, d). (d, s)) (edge_index g)) \<and>
    (\<exists>m p. Some m \<in> set suppl \<and> mset p = mset [0..<length (edge_indices (bonds m))] \<and>
       edge_index g = gather (edge_indices (bonds m)) p \<and>
       rows (edge_attr g) = gather (edge_attrs (bonds m)) p) \<and>
    gather [(0, 1), (1, 0), (1, 2), (2, 1)] (lexsort [0, 1, 1, 2 :: int] [1, 0, 2, 1 :: int])
      = [(1, 0), (0, 1), (2, 1), (1, 2 :: int)]"
proof -
  from assms(1) obtain targets where
    "process_loop targets skip_indices 0 suppl = Inr gs"
    by (auto simp: process_def split: sum.splits)
  from process_loop_member[OF this assms(2)] obtain k m where
    m: "Some m \<in> set suppl" and g: "process_mol targets k m = Inr g" by blast
  let ?es = "edge_indices (bonds m)"
  let ?p = "lexsort (map fst ?es) (map snd ?es)"
  note e = process_mol_edges[OF g]
  have 1: "sorted (map (\<lambda>(s, d). (d, s)) (edge_index g))"
    using e sorted_gather_lexsort[of ?es] by simp
  have "mset ?p = mset [0..<length ?es]"
    by (simp add: mset_lexsort)
  then have 2: "\<exists>m p. Some m \<in> set suppl \<and> mset p = mset [0..<length (edge_indices (bonds m))] \<and>
       edge_index g = gather (edge_indices (bonds m)) p \<and>
       rows (edge_attr g) = gather (edge_attrs (bonds m)) p"
    using m e by blast
  have 3: "gather [(0, 1), (1, 0), (1, 2), (2, 1)] (lexsort [0, 1, 1, 2 :: int] [1, 0, 2, 1 :: int])
      = [(1, 0), (0, 1), (2, 1), (1, 2 :: int)]"
    by (simp add: gather_def lexsort_def upt_rec numeral_nat)
  from 1 2 3 show ?thesis by blast
qed

text \<open>
  C4. In every graph the parser returns, each edge \<open>(u, v)\<close> has a reversed edge
  \<open>(v, u)\<close> somewhere in the list that carries the same feature row.
\<close>

theorem process_edges_symmetric:
  assumes "process raw_targets skip_indices suppl = Inr gs" and "g \<in> set gs"
    and "k < length (edge_index g)"
  shows "\<exists>j < length (edge_index g).
     edge_index g ! j = prod.swap (edge_index g ! k) \<and>
     rows (edge_attr g) ! j = rows (edge_attr g) ! k"
proof -
  from assms(1) obtain targets where
    "process_loop targets skip_indices 0 suppl = Inr gs"
    by (auto simp: process_def split: sum.splits)
  from process_loop_member[OF this assms(2)] obtain i m where
    g: "process_mol targets i m = Inr g" by blast
  let ?es = "edge_indices (bonds m)"
  let ?as = "edge_attrs (bonds m)"
  let ?p = "lexsort (map fst ?es) (map snd ?es)"
  note e = process_mol_edges[OF g]
  have lp: "length ?p = length ?es" by (simp add: length_lexsort)
  have sp: "set ?p = {0..<length ?es}" by (simp add: set_lexsort)
  have k: "k < length ?p" using assms(3) e by (simp add: gather_def)
  then have "?p ! k \<in> set ?p" by (rule nth_mem)
  then have "?p ! k < length ?es" using sp by simp
  from edge_indices_partner[OF this] obtain j' where
    j': "j' < length ?es" "?es ! j' = prod.swap (?es ! (?p ! k))" "?as ! j' = ?as ! (?p ! k)"
    by blast
  then have "j' \<in> set ?p" using sp by simp
  then obtain j where j: "j < length ?p" "?p ! j = j'" by (auto simp: in_set_conv_nth)
  have "edge_index g ! j = prod.swap (edge_index g ! k)"
    using e j j' k by (simp add: gather_def)
  moreover have "rows (edge_attr g) ! j = rows (edge_attr g) ! k"
    using e j j' k by (simp add: gather_def)
  moreover have "j < length (edge_index g)" using e j by (simp add: gather_def)
  ultimately show ?thesis by blast
qed

subsection \<open>The three-atom example\<close>

lemma example_process_targets:
  "process_targets example_targets = Inr \<lparr>ncols = 19, rows = [[4, 5, 6 * HAR2EV, 7 * HAR2EV, 8 * HAR2EV, 9,
      10 * HAR2EV, 11 * HAR2EV, 12 * HAR2EV, 13 * HAR2EV, 14 * HAR2EV, 15, 16 * KCALMOL2EV,
      17 * KCALMOL2EV, 18 * KCALMOL2EV, 19 * KCALMOL2EV, 1, 2, 3]]\<rparr>"
  by (simp add: process_targets_def example_targets_def concatenate_axis1_def cols_from_def
      cols_upto_def mul_broadcast_def nrows_def conversion_factors_def)

lemma example_edge_indices:
  "edge_indices (bonds example_mol) = [(0, 1), (1, 0), (1, 2), (2, 1)]"
  by (simp add: example_mol_def)

lemma example_lexsort:
  "lexsort (map fst [(0 :: int, 1 :: int), (1, 0), (1, 2), (2, 1)])
     (map snd [(0 :: int, 1 :: int), (1, 0), (1, 2), (2, 1)]) = [1, 0, 3, 2]"
  by (simp add: lexsort_def upt_rec numeral_nat)

lemma example_edges:
  "gather (edge_indices (bonds example_mol))
     (lexsort (map fst (edge_indices (bonds example_mol))) (map snd (edge_indices (bonds example_mol))))
   = [(1, 0), (0, 1), (2, 1), (1, 2)]"
  unfolding example_edge_indices example_lexsort by (simp add: gather_def)

lemma example_attrs:
  "gather (edge_attrs (bonds example_mol))
     (lexsort (map fst (edge_indices (bonds example_mol))) (map snd (edge_indices (bonds example_mol))))
   = [[True, False, False, False], [True, False, False, False],
      [False, True, False, False], [False, True, False, False]]"
  unfolding example_edge_indices example_lexsort
  by (simp add: example_mol_def gather_def bond_type_row_def)

lemma example_x:
  "one_hot_atoms (atoms example_mol) =
     Inr [[False, True, False, False, False], [False, True, False, False, False],
          [False, False, False, True, False]]"
  by (simp add: example_mol_def atom_types_def len_atom_types_def numeral_nat)

lemma example_bonds: "bonds example_mol \<noteq> []"
  by (simp add: example_mol_def)

lemma example_process:
  "\<exists>g. process example_targets {} [Some example_mol] = Inr [g] \<and>
     edge_index g = [(1, 0), (0, 1), (2, 1), (1, 2)] \<and>
     rows (edge_attr g) = [[True, False, False, False], [True, False, False, False],
      [False, True, False, False], [False, True, False, False]] \<and>
     rows (x g) = [[False, True, False, False, False], [False, True, False, False, False],
          [False, False, False, True, False]]"
  by (simp add: process_def example_process_targets process_mol_def example_x nrows_def Let_def
      example_bonds example_edges example_attrs)


theorem process_edges_sorted_witness:
  "\<exists>g. process example_targets {} [Some example_mol] = Inr [g] \<and>
     edge_index g = [(1, 0), (0, 1), (2, 1), (1, 2)] \<and>
     sorted (map (\<lambda>(s, d). (d, s)) (edge_index g)) \<and>
     (\<exists>p. mset p = mset [0..<length (edge_indices (bonds example_mol))] \<and>
          edge_index g = gather (edge_indices (bonds example_mol)) p \<and>
          rows (edge_attr g) = gather (edge_attrs (bonds example_mol)) p)"
proof -
  from example_process obtain g where
    g: "process example_targets {} [Some example_mol] = Inr [g]"
    and e: "edge_index g = [(1, 0), (0, 1), (2, 1), (1, 2)]" by blast
  have "g \<in> set [g]" by simp
  from process_edges_sorted[OF g this] obtain m p where
    s: "sorted (map (\<lambda>(s, d). (d, s)) (edge_index g))"
    and m: "Some m \<in> set [Some example_mol]"
    and p: "mset p = mset [0..<length (edge_indices (bonds m))]"
       "edge_index g = gather (edge_indices (bonds m)) p"
       "rows (edge_attr g) = gather (edge_attrs (bonds m)) p" by blast
  from m have "m = example_mol" by simp
  with g e s p show ?thesis by blast
qed

theorem process_edges_symmetric_witness:
  "\<exists>g. process example_targets {} [Some example_mol] = Inr [g] \<and>
     edge_index g ! 2 = (2, 1) \<and>
     (\<exists>j < length (edge_index g).
        edge_index g ! j = (1, 2) \<and> rows (edge_attr g) ! j = rows (edge_attr g) ! 2)"
proof -
  from example_process obtain g where
    g: "process example_targets {} [Some example_mol] = Inr [g]"
    and e: "edge_index g = [(1, 0), (0, 1), (2, 1), (1, 2)]" by blast
  have 1: "g \<in> set [g]" by simp
  have 2: "2 < length (edge_index g)" using e by simp
  have 3: "edge_index g ! 2 = (2, 1)" using e by simp
  from process_edges_symmetric[OF g 1 2] obtain j where
    "j < length (edge_index g)" "edge_index g ! j = prod.swap (edge_index g ! 2)"
    "rows (edge_attr g) ! j = rows (edge_attr g) ! 2" by blast
  then have "\<exists>j < length (edge_index g).
        edge_index g ! j = (1, 2) \<and> rows (edge_attr g) ! j = rows (edge_attr g) ! 2"
    unfolding 3 by auto
  with g 3 show ?thesis by blast
qed

subsection \<open>Atoms outside the vocabulary\<close>

lemma one_hot_atoms_unknown:
  "a \<in> set as \<Longrightarrow> atom_types (atomic_num a) = None \<Longrightarrow> one_hot_atoms as = Inl KeyError"
proof (induction as)
  case Nil
  then show ?case by simp
next
  case (Cons b bs)
  show ?case
  proof (cases "atom_types (atomic_num b)")
    case None
    then show ?thesis by simp
  next
    case (Some k)
    with Cons.prems have "a \<in> set bs" by auto
    from Cons.IH[OF this Cons.prems(2)] Some show ?thesis by simp
  qed
qed

lemma process_mol_unknown:
  "a \<in> set (atoms m) \<Longrightarrow> atom_types (atomic_num a) = None \<Longrightarrow>
   process_mol targets i m = Inl KeyError"
  by (simp add: process_mol_def one_hot_atoms_unknown)

lemma process_loop_append:
  "process_loop targets skip i (rs @ rs') =
     (case process_loop targets skip i rs of
        Inl e \<Rightarrow> Inl e
      | Inr gs \<Rightarrow>
          (case process_loop targets skip (i + length rs) rs' of
             Inl e \<Rightarrow> Inl e
           | Inr gs' \<Rightarrow> Inr (gs @ gs')))"
proof (induction rs arbitrary: i)
  case Nil
  then show ?case by (simp split: sum.splits)
next
  case (Cons r rs)
  show ?case
    by (simp add: Cons.IH split: sum.splits)
qed

text \<open>
  C9 (as amended). Suppose the records before position \<open>length pre\<close> were processed
  without error and the record at that position has an atom whose atomic number is not a key
  of \<open>atom_types\<close>. If the position is not excluded, \<open>process\<close> fails with
  \<open>KeyError\<close> (a lookup error, not a \<open>ValueError\<close>) and returns no graph list; if the
  position is excluded, or the record is unparsable (\<open>None\<close>), the record is passed over
  and the result is that of the remaining records.
\<close>

theorem process_unknown_atom:
  assumes "process_targets raw_targets = Inr targets"
    and "process_loop targets skip_indices 0 pre = Inr gs"
    and "a \<in> set (atoms m)" and "atom_types (atomic_num a) = None"
  shows "process raw_targets skip_indices (pre @ Some m # post) =
      (if length pre \<in> skip_indices
       then (case process_loop targets skip_indices (Suc (length pre)) post of
               Inl e \<Rightarrow> Inl e | Inr gs' \<Rightarrow> Inr (gs @ gs'))
       else Inl KeyError) \<and>
    process raw_targets skip_indices (pre @ None # post) =
      (case process_loop targets skip_indices (Suc (length pre)) post of
         Inl e \<Rightarrow> Inl e | Inr gs' \<Rightarrow> Inr (gs @ gs'))"
  using assms(1,2) process_mol_unknown[OF assms(3,4), of targets "length pre"]
  by (simp add: process_def process_loop_append split: sum.splits)

lemma example_bad_atom:
  "\<lparr>atomic_num = 16, atom_position = (0, 0, 0)\<rparr> \<in> set (atoms example_bad_mol) \<and>
   atom_types (atomic_num \<lparr>atomic_num = 16, atom_position = (0 :: real, 0 :: real, 0 :: real)\<rparr>) = None"
  by (simp add: example_bad_mol_def atom_types_def)

lemma example_bad_process_mol: "process_mol targets i example_bad_mol = Inl KeyError"
proof -
  let ?a = "\<lparr>atomic_num = 16, atom_position = (0 :: real, 0 :: real, 0 :: real)\<rparr>"
  have "?a \<in> set (atoms example_bad_mol)" and "atom_types (atomic_num ?a) = None"
    using example_bad_atom by simp_all
  then show ?thesis by (rule process_mol_unknown)
qed

text \<open>
  C9 as stated fails: for a molecule containing sulphur (atomic number 16) the parser raises
  \<open>KeyError\<close>, which is not in the \<open>ValueError\<close> class.
\<close>

theorem process_unknown_atom_not_ValueError:
  "process example_targets {} [Some example_bad_mol] = Inl KeyError \<and>
   process example_targets {} [Some example_bad_mol] \<noteq> Inl ValueError"
  by (simp add: process_def example_process_targets example_bad_process_mol)

theorem process_unknown_atom_witness:
  "process example_targets {} [Some example_bad_mol] = Inl KeyError \<and>
   process example_targets {0} [Some example_bad_mol] = Inr [] \<and>
   process example_targets {} [None] = Inr []"
proof -
  let ?a = "\<lparr>atomic_num = 16, atom_position = (0 :: real, 0 :: real, 0 :: real)\<rparr>"
  note t = example_process_targets
  have a: "?a \<in> set (atoms example_bad_mol)" and n: "atom_types (atomic_num ?a) = None"
    using example_bad_atom by simp_all
  have l0: "process_loop (projr (process_targets example_targets)) {} 0 [] = Inr []"
    and l1: "process_loop (projr (process_targets example_targets)) {0} 0 [] = Inr []"
    by simp_all
  have t': "process_targets example_targets = Inr (projr (process_targets example_targets))"
    by (simp add: t)
  from process_unknown_atom[OF t' l0 a n, of "[]"] process_unknown_atom[OF t' l1 a n, of "[]"]
  show ?thesis by simp
qed

subsection \<open>Subset query\<close>

lemma take1_drop: "t < length ys \<Longrightarrow> take (Suc 0) (drop t ys) = [ys ! t]"
  by (simp add: take_Suc hd_drop_conv_nth)

text \<open>
  C10. With a target selected, \<open>get(i)\<close> at a valid index whose stored target still
  holds the selected column returns the record with its target replaced by the one-element
  slice at \<open>target_index\<close>, stores that record in the corpus at the same position,
  leaves every other field of the record and of the dataset as it was, and a second
  \<open>get(i)\<close> returns the same record and changes nothing.
\<close>

theorem getitem_projects_once:
  assumes ti: "target_index self = Some t"
    and valid: "- int (length (data self)) \<le> i" "i < int (length (data self))"
    and k: "k = nat (if i < 0 then int (length (data self)) + i else i)"
    and t: "t < length (y (data self ! k))"
  shows "\<exists>item self'.
     getitem self i = Inr (item, self') \<and>
     y item = [y (data self ! k) ! t] \<and>
     item\<lparr>y := y (data self ! k)\<rparr> = data self ! k \<and>
     data self' = (data self)[k := item] \<and>
     target_index self' = target_index self \<and> split self' = split self \<and>
     getitem self' i = Inr (item, self')"
proof -
  let ?n = "int (length (data self))"
  let ?j = "if i < 0 then ?n + i else i"
  have j: "0 \<le> ?j" "?j < ?n" using valid by auto
  have kl: "k < length (data self)" using j k by auto
  let ?old = "data self ! k"
  show ?thesis
  proof (cases "length (y ?old) > 1")
    case True
    let ?item = "?old\<lparr>y := take 1 (drop t (y ?old))\<rparr>"
    let ?self' = "self\<lparr>data := (data self)[k := ?item]\<rparr>"
    have g1: "getitem self i = Inr (?item, ?self')"
      using j ti True k by (simp add: getitem_def Let_def)
    have yi: "y ?item = [y ?old ! t]" using t by (simp add: take1_drop)
    have n': "int (length (data ?self')) = ?n" by simp
    have it: "data ?self' ! k = ?item" using kl by simp
    have "\<not> length (y ?item) > 1" using yi by simp
    then have g2: "getitem ?self' i = Inr (?item, ?self')"
      using j ti k it by (simp add: getitem_def Let_def)
    have "?item\<lparr>y := y ?old\<rparr> = ?old" by simp
    with g1 g2 yi show ?thesis by (intro exI[of _ ?item] exI[of _ ?self']) simp
  next
    case False
    with t have l: "length (y ?old) = 1" and t0: "t = 0" by auto
    have g1: "getitem self i = Inr (?old, self)"
      using j ti False k by (simp add: getitem_def Let_def)
    have yi: "y ?old = [y ?old ! t]"
      using l t0 by (cases "y ?old") auto
    have "(data self)[k := ?old] = data self" by simp
    with g1 yi show ?thesis by (intro exI[of _ ?old] exI[of _ self]) simp
  qed
qed


theorem getitem_projects_once_witness:
  "init_target_index (Some ''alpha'') = Inr (target_index example_dataset) \<and>
   (\<exists>item self'. getitem example_dataset 0 = Inr (item, self') \<and> y item = [2] \<and>
      name item = ''gdb_x'' \<and> data self' = [item] \<and> getitem self' 0 = Inr (item, self'))"
proof -
  have 1: "init_target_index (Some ''alpha'') = Inr (target_index example_dataset)"
    by (simp add: init_target_index_def TARGETS_def example_dataset_def)
  have d0: "data example_dataset = [example_graph]"
    by (simp add: example_dataset_def)
  have a: "target_index example_dataset = Some 1"
    by (simp add: example_dataset_def)
  have b: "- int (length (data example_dataset)) \<le> 0" "0 < int (length (data example_dataset))"
    by (simp_all add: d0)
  have c: "0 = nat (if (0::int) < 0 then int (length (data example_dataset)) + 0 else 0)"
    by simp
  have d: "1 < length (y (data example_dataset ! 0))"
    by (simp add: d0 example_graph_def)
  from getitem_projects_once[OF a b c d] obtain item self' where
    g: "getitem example_dataset 0 = Inr (item, self')"
    and yi: "y item = [y (data example_dataset ! 0) ! 1]"
    and rest: "item\<lparr>y := y (data example_dataset ! 0)\<rparr> = data example_dataset ! 0"
    and st: "data self' = (data example_dataset)[0 := item]"
    and g2: "getitem self' 0 = Inr (item, self')" by blast
  have y2: "y item = [2]" using yi by (simp add: d0 example_graph_def)
  have "name (item\<lparr>y := y (data example_dataset ! 0)\<rparr>) = name example_graph"
    using rest by (simp only: d0 nth_Cons_0)
  then have nm: "name item = ''gdb_x''" by (simp add: example_graph_def)
  have st': "data self' = [item]" using st by (simp add: d0)
  from 1 g y2 nm st' g2 show ?thesis by blast
qed

subsection \<open>Deterministic split\<close>

lemma split_blocks_append:
  "split_blocks a b perm = (tr, va, te) \<Longrightarrow> perm = tr @ va @ te"
  by (auto simp: split_blocks_def) (metis add.commute append_take_drop_id drop_drop)

lemma select_rows_Inr:
  "select_rows xs is = Inr rs \<Longrightarrow> rs = gather xs is"
  by (simp add: select_rows_def split: if_splits)

lemma apply_split_returns:
  assumes "mset (permutation (random_state 42) [0..<TOTAL_SIZE]) = mset [0..<TOTAL_SIZE]"
    and "length (data self) = TOTAL_SIZE"
    and "split self \<in> {Some ''train'', Some ''val'', Some ''test''}"
  shows "\<exists>self'. apply_split random_state permutation self = Inr self'"
proof -
  let ?perm = "permutation (random_state 42) [0..<TOTAL_SIZE]"
  have "set ?perm = {0..<TOTAL_SIZE}" using assms(1) by (metis mset_eq_setD set_upt)
  then have all: "\<forall>i \<in> set ?perm. i < length (data self)" using assms(2) by simp
  have "\<And>a b. list_all (\<lambda>i. i < length (data self)) (take a (drop b ?perm))"
    using all by (meson in_set_dropD in_set_takeD list_all_iff)
  moreover have "\<And>b. list_all (\<lambda>i. i < length (data self)) (drop b ?perm)"
    using all by (meson in_set_dropD list_all_iff)
  moreover have "\<And>a. list_all (\<lambda>i. i < length (data self)) (take a ?perm)"
    using all by (meson in_set_takeD list_all_iff)
  ultimately show ?thesis
    using assms(3)
    by (auto simp: apply_split_def split_indices_def split_blocks_def select_rows_def)
qed

text \<open>
  C6. Let the seeded generator return a permutation of \<open>0..<T\<close> and let the three sizes
  sum to \<open>T\<close>. Then the blocks \<open>perm[:Ttr]\<close>, \<open>perm[Ttr:Ttr + Tval]\<close> and
  \<open>perm[Ttr + Tval:]\<close> have the declared sizes, are pairwise disjoint and cover exactly
  \<open>{0..<T}\<close>. The blocks of \<open>apply_split\<close> are these blocks at seed 42 and the class
  constants, whose sizes sum to the total; they are computed from the seed and the constants
  alone, so every invocation, whatever the state of the dataset, gathers its records through
  the same three index blocks.
\<close>

theorem split_blocks_partition:
  assumes perm: "mset (permutation (random_state seed) [0..<T]) = mset [0..<T]"
    and sizes: "Ttr + Tval + Tte = T"
  shows "(case split_blocks Ttr Tval (permutation (random_state seed) [0..<T]) of
       (tr, va, te) \<Rightarrow>
         length tr = Ttr \<and> length va = Tval \<and> length te = Tte \<and>
         set tr \<inter> set va = {} \<and> set tr \<inter> set te = {} \<and> set va \<inter> set te = {} \<and>
         set tr \<union> set va \<union> set te = {0..<T}) \<and>
     split_indices random_state permutation =
       split_blocks TRAIN_SIZE VAL_SIZE (permutation (random_state 42) [0..<TOTAL_SIZE]) \<and>
     TRAIN_SIZE + VAL_SIZE + TEST_SIZE = TOTAL_SIZE \<and>
     (\<forall>self self'. apply_split random_state permutation self = Inr self' \<longrightarrow>
        (case split_indices random_state permutation of
           (tr, va, te) \<Rightarrow>
             data self' = gather (data self)
               (if split self = Some ''train'' then tr
                else if split self = Some ''val'' then va else te)))"
proof -
  let ?perm = "permutation (random_state seed) [0..<T]"
  obtain tr va te where b: "split_blocks Ttr Tval ?perm = (tr, va, te)"
    by (cases "split_blocks Ttr Tval ?perm") auto
  have app: "?perm = tr @ va @ te" using b by (rule split_blocks_append)
  have len: "length ?perm = T" using perm by (metis length_upt mset_eq_length minus_nat.diff_0)
  have "distinct ?perm" using perm by (metis distinct_upt mset_eq_imp_distinct_iff)
  then have d: "distinct (tr @ va @ te)" using app by simp
  have "set ?perm = {0..<T}" using perm by (metis mset_eq_setD set_upt)
  then have u: "set tr \<union> set va \<union> set te = {0..<T}" using app by (metis set_append sup_assoc)
  have l: "length tr = Ttr \<and> length va = Tval \<and> length te = Tte"
    using b len sizes by (auto simp: split_blocks_def)
  have dj: "set tr \<inter> set va = {} \<and> set tr \<inter> set te = {} \<and> set va \<inter> set te = {}"
    using d by auto
  have 1: "case split_blocks Ttr Tval ?perm of
       (tr, va, te) \<Rightarrow>
         length tr = Ttr \<and> length va = Tval \<and> length te = Tte \<and>
         set tr \<inter> set va = {} \<and> set tr \<inter> set te = {} \<and> set va \<inter> set te = {} \<and>
         set tr \<union> set va \<union> set te = {0..<T}"
    unfolding b using l dj u by simp
  have 2: "split_indices random_state permutation =
       split_blocks TRAIN_SIZE VAL_SIZE (permutation (random_state 42) [0..<TOTAL_SIZE])"
    by (simp add: split_indices_def)
  have 3: "TRAIN_SIZE + VAL_SIZE + TEST_SIZE = TOTAL_SIZE"
    by (simp add: TRAIN_SIZE_def VAL_SIZE_def TEST_SIZE_def TOTAL_SIZE_def)
  have 4: "\<forall>self self'. apply_split random_state permutation self = Inr self' \<longrightarrow>
        (case split_indices random_state permutation of
           (tr, va, te) \<Rightarrow>
             data self' = gather (data self)
               (if split self = Some ''train'' then tr
                else if split self = Some ''val'' then va else te))"
  proof (intro allI impI)
    fix self self' :: "'c dataset"
    assume a: "apply_split random_state permutation self = Inr self'"
    obtain tr va te where s: "split_indices random_state permutation = (tr, va, te)"
      by (cases "split_indices random_state permutation") auto
    from a show "case split_indices random_state permutation of
           (tr, va, te) \<Rightarrow>
             data self' = gather (data self)
               (if split self = Some ''train'' then tr
                else if split self = Some ''val'' then va else te)"
      unfolding s
      by (auto simp: apply_split_def s split: if_splits sum.splits dest: select_rows_Inr)
  qed
  from 1 2 3 4 show ?thesis by blast
qed


theorem split_blocks_partition_witness:
  "mset (rev [0..<5]) = mset [0..<5] \<and>
   split_blocks 2 2 (rev [0..<5]) = ([4, 3], [2, 1], [0]) \<and>
   set [4, 3] \<inter> set [2, 1] = ({} :: nat set) \<and> set [4, 3] \<inter> set [0] = ({} :: nat set) \<and>
   set [2, 1] \<inter> set [0] = ({} :: nat set) \<and>
   set [4, 3] \<union> set [2, 1] \<union> set [0] = {0..<5 :: nat}"
proof -
  have u: "[0..<5] = [0, 1, 2, 3, 4]" by (simp add: upt_rec numeral_nat)
  have p: "mset ((\<lambda>s xs. rev xs) ((\<lambda>s. s) (42 :: nat)) [0..<5]) = mset [0..<5]" by simp
  have s: "(2 :: nat) + 2 + 1 = 5" by simp
  have b: "split_blocks 2 2 (rev [0..<5]) = ([4, 3], [2, 1], [0])"
    by (simp add: split_blocks_def u)
  have "case split_blocks 2 2 (rev [0..<5]) of
       (tr, va, te) \<Rightarrow>
         length tr = 2 \<and> length va = 2 \<and> length te = 1 \<and>
         set tr \<inter> set va = {} \<and> set tr \<inter> set te = {} \<and> set va \<inter> set te = {} \<and>
         set tr \<union> set va \<union> set te = {0..<5}"
    using split_blocks_partition[of "\<lambda>s xs. rev xs" "\<lambda>s. s" 42 5, OF p s] by (rule conjunct1)
  then have "set [4, 3] \<inter> set [2, 1] = ({} :: nat set) \<and> set [4, 3] \<inter> set [0] = ({} :: nat set) \<and>
   set [2, 1] \<inter> set [0] = ({} :: nat set) \<and>
   set [4, 3] \<union> set [2, 1] \<union> set [0] = {0..<5 :: nat}"
    unfolding b by (simp only: prod.case)
  with b show ?thesis by simp
qed

subsection \<open>Collation\<close>

lemma int64_id: "- (2 ^ 63) \<le> v \<Longrightarrow> v < 2 ^ 63 \<Longrightarrow> int64 v = v"
  by (simp add: int64_def)

lemma int32_id: "- (2 ^ 31) \<le> v \<Longrightarrow> v < 2 ^ 31 \<Longrightarrow> int32 v = v"
  by (simp add: int32_def)

lemma map_upt_Suc0: "map f [0..<Suc m] = f 0 # map (\<lambda>j. f (Suc j)) [0..<m]"
  by (simp only: upt_conv_Cons[of 0 "Suc m", OF zero_less_Suc] list.map map_Suc_upt[symmetric] map_map o_def)

lemma collate_loop_ptr:
  "snd (snd (collate_loop i c items)) =
     map (\<lambda>j. c + int (sum_list (take (Suc j) (map (\<lambda>g. nrows (x g)) items)))) [0..<length items]"
proof (induction items arbitrary: i c)
  case Nil
  then show ?case by simp
next
  case (Cons g gs)
  have "snd (snd (collate_loop i c (g # gs))) =
      (c + int (nrows (x g))) # snd (snd (collate_loop (Suc i) (c + int (nrows (x g))) gs))"
    by (simp add: Let_def split: prod.splits)
  also have "\<dots> = (c + int (nrows (x g))) #
      map (\<lambda>j. c + int (nrows (x g)) + int (sum_list (take (Suc j) (map (\<lambda>g. nrows (x g)) gs))))
        [0..<length gs]"
    by (simp only: Cons.IH)
  also have "\<dots> = map (\<lambda>j. c + int (sum_list (take (Suc j) (map (\<lambda>g. nrows (x g)) (g # gs)))))
        [0..<length (g # gs)]"
    by (simp add: map_upt_Suc0 del: upt_Suc)
  finally show ?case .
qed

lemma collate_loop_edges:
  assumes "\<forall>g \<in> set items. list_all (\<lambda>(s, d). 0 \<le> s \<and> s < int (nrows (x g)) \<and> 0 \<le> d \<and> d < int (nrows (x g))) (edge_index g)"
    and "0 \<le> c" and "c + int (sum_list (map (\<lambda>g. nrows (x g)) items)) < 2 ^ 63"
    and "e \<in> set (concat (fst (snd (collate_loop i c items))))"
  shows "c \<le> fst e \<and> fst e < c + int (sum_list (map (\<lambda>g. nrows (x g)) items)) \<and>
         c \<le> snd e \<and> snd e < c + int (sum_list (map (\<lambda>g. nrows (x g)) items))"
  using assms
proof (induction items arbitrary: i c)
  case Nil
  then show ?case by simp
next
  case (Cons g gs)
  let ?n = "int (nrows (x g))"
  let ?rest = "int (sum_list (map (\<lambda>g. nrows (x g)) gs))"
  have tot: "int (sum_list (map (\<lambda>g. nrows (x g)) (g # gs))) = ?n + ?rest" by simp
  have st: "fst (snd (collate_loop i c (g # gs))) =
      map (\<lambda>(s, d). (int64 (s + c), int64 (d + c))) (edge_index g) #
      fst (snd (collate_loop (Suc i) (c + ?n) gs))"
    by (simp add: Let_def split: prod.splits)
  from Cons.prems(4) have "e \<in> set (map (\<lambda>(s, d). (int64 (s + c), int64 (d + c))) (edge_index g))
      \<or> e \<in> set (concat (fst (snd (collate_loop (Suc i) (c + ?n) gs))))"
    unfolding st by simp
  then consider
    (here) "e \<in> set (map (\<lambda>(s, d). (int64 (s + c), int64 (d + c))) (edge_index g))"
    | (later) "e \<in> set (concat (fst (snd (collate_loop (Suc i) (c + ?n) gs))))"
    by blast
  then show ?case
  proof cases
    case here
    then obtain s d where sd: "(s, d) \<in> set (edge_index g)"
      and e: "e = (int64 (s + c), int64 (d + c))" by auto
    from Cons.prems(1) sd have r: "0 \<le> s" "s < ?n" "0 \<le> d" "d < ?n"
      by (auto simp: list_all_iff)
    have b: "c + ?n + ?rest < 2 ^ 63" using Cons.prems(3) by simp
    have "int64 (s + c) = s + c" using r Cons.prems(2) b by (intro int64_id) auto
    moreover have "int64 (d + c) = d + c" using r Cons.prems(2) b by (intro int64_id) auto
    ultimately show ?thesis unfolding tot e using r by simp
  next
    case later
    have 1: "\<forall>g \<in> set gs. list_all (\<lambda>(s, d). 0 \<le> s \<and> s < int (nrows (x g)) \<and> 0 \<le> d \<and> d < int (nrows (x g))) (edge_index g)"
      using Cons.prems(1) by simp
    have 2: "0 \<le> c + ?n" using Cons.prems(2) by simp
    have 3: "c + ?n + ?rest < 2 ^ 63" using Cons.prems(3) by simp
    from Cons.IH[OF 1 2 3 later] show ?thesis unfolding tot by simp
  qed
qed

lemma concatenate_axis0_ok:
  assumes "items \<noteq> []" and "\<forall>g \<in> set items. ncols (f g) = w"
  shows "concatenate_axis0 (map f items) = Inr \<lparr>ncols = w, rows = concat (map (\<lambda>g. rows (f g)) items)\<rparr>"
proof -
  obtain g gs where i: "items = g # gs" using assms(1) by (cases items) auto
  have "list_all (\<lambda>b. ncols b = ncols (f g)) (map f items)"
    using assms(2) i by (simp add: list_all_iff)
  then show ?thesis using assms(2) i by (simp add: concatenate_axis0_def o_def)
qed

lemma stack_ok:
  assumes "items \<noteq> []" and "\<forall>g \<in> set items. length (f g) = k"
  shows "stack (map f items) = Inr \<lparr>ncols = k, rows = map f items\<rparr>"
proof -
  obtain g gs where i: "items = g # gs" using assms(1) by (cases items) auto
  have "list_all (\<lambda>u. length u = length (f g)) (map f items)"
    using assms(2) i by (simp add: list_all_iff)
  then show ?thesis using assms(2) i by (simp add: stack_def)
qed

lemma sum_list_take_le: "sum_list (take j (ns :: nat list)) \<le> sum_list ns"
  by (metis append_take_drop_id le_add1 sum_list.append)

text \<open>
  C5. For a non-empty list of molecule graphs that meet the data model (atom ids index
  the atom rows, arrays of the parser's widths, targets of one length) and hold fewer than
  \<open>2^31\<close> atoms in total, \<open>collate_fn\<close> returns a batch whose \<open>ptr\<close> is the list of
  cumulative atom counts \<open>[0, n0, n0 + n1, ..., sum n]\<close>, of length \<open>B + 1\<close>, and every
  atom id in its \<open>edge_index\<close> lies in \<open>[0, sum n)\<close>.
\<close>

theorem collate_fn_boundaries:
  assumes ne: "items \<noteq> []" and wf: "\<forall>g \<in> set items. wf_mol k g"
    and small: "int (sum_list (map (\<lambda>g. nrows (x g)) items)) < 2 ^ 31"
  shows "\<exists>b. collate_fn items = Inr b \<and>
     ptr b = map (\<lambda>j. int (sum_list (take j (map (\<lambda>g. nrows (x g)) items))))
               [0..<Suc (length items)] \<and>
     length (ptr b) = length items + 1 \<and>
     (\<forall>e \<in> set (edge_index b).
        0 \<le> fst e \<and> fst e < int (sum_list (map (\<lambda>g. nrows (x g)) items)) \<and>
        0 \<le> snd e \<and> snd e < int (sum_list (map (\<lambda>g. nrows (x g)) items)))"
proof -
  let ?ns = "map (\<lambda>g. nrows (x g)) items"
  obtain bi eb pt where loop: "collate_loop 0 0 items = (bi, eb, pt)"
    by (cases "collate_loop 0 0 items") auto
  have pt: "pt = map (\<lambda>j. int (sum_list (take (Suc j) ?ns))) [0..<length items]"
    using collate_loop_ptr[of 0 0 items] loop by simp
  have c1: "concatenate_axis0 (map pos items) =
      Inr \<lparr>ncols = 3, rows = concat (map (\<lambda>g. rows (pos g)) items)\<rparr>"
    using ne wf by (intro concatenate_axis0_ok) (auto simp: wf_mol_def)
  have c2: "concatenate_axis0 (map x items) =
      Inr \<lparr>ncols = len_atom_types, rows = concat (map (\<lambda>g. rows (x g)) items)\<rparr>"
    using ne wf by (intro concatenate_axis0_ok) (auto simp: wf_mol_def)
  have c3: "stack (map y items) = Inr \<lparr>ncols = k, rows = map y items\<rparr>"
    using ne wf by (intro stack_ok) (auto simp: wf_mol_def)
  have c4: "concatenate_axis0 (map edge_attr items) =
      Inr \<lparr>ncols = 4, rows = concat (map (\<lambda>g. rows (edge_attr g)) items)\<rparr>"
    using ne wf by (intro concatenate_axis0_ok) (auto simp: wf_mol_def)
  let ?b = "\<lparr>pos = \<lparr>ncols = 3, rows = concat (map (\<lambda>g. rows (pos g)) items)\<rparr>,
             x = \<lparr>ncols = len_atom_types, rows = concat (map (\<lambda>g. rows (x g)) items)\<rparr>,
             y = \<lparr>ncols = k, rows = map y items\<rparr>,
             edge_index = concat eb,
             edge_attr = \<lparr>ncols = 4, rows = concat (map (\<lambda>g. rows (edge_attr g)) items)\<rparr>,
             batch = map int32 bi, ptr = map int32 (0 # pt)\<rparr>"
  have res: "collate_fn items = Inr ?b"
    by (simp add: collate_fn_def loop c1 c2 c3 c4)
  have id: "int32 (int (sum_list (take j ?ns))) = int (sum_list (take j ?ns))" for j
  proof (rule int32_id)
    show "- (2 ^ 31) \<le> int (sum_list (take j ?ns))" by simp
    have "int (sum_list (take j ?ns)) \<le> int (sum_list ?ns)"
      using sum_list_take_le[of j ?ns] by simp
    then show "int (sum_list (take j ?ns)) < 2 ^ 31" using small by simp
  qed
  have "0 # pt = map (\<lambda>j. int (sum_list (take j ?ns))) [0..<Suc (length items)]"
    unfolding pt by (simp add: map_upt_Suc0 del: upt_Suc)
  then have "map int32 (0 # pt) = map (\<lambda>j. int32 (int (sum_list (take j ?ns)))) [0..<Suc (length items)]"
    by (simp only: map_map o_def)
  then have p: "ptr ?b = map (\<lambda>j. int (sum_list (take j ?ns))) [0..<Suc (length items)]"
    by (simp add: id)
  have l: "length (ptr ?b) = length items + 1" unfolding p by simp
  have e: "\<forall>e \<in> set (edge_index ?b).
        0 \<le> fst e \<and> fst e < int (sum_list ?ns) \<and> 0 \<le> snd e \<and> snd e < int (sum_list ?ns)"
  proof
    fix e assume "e \<in> set (edge_index ?b)"
    then have m: "e \<in> set (concat (fst (snd (collate_loop 0 0 items))))" by (simp add: loop)
    have 1: "\<forall>g \<in> set items. list_all (\<lambda>(s, d). 0 \<le> s \<and> s < int (nrows (x g)) \<and> 0 \<le> d \<and> d < int (nrows (x g))) (edge_index g)"
      using wf by (simp add: wf_mol_def)
    have 3: "0 + int (sum_list ?ns) < 2 ^ 63" using small by simp
    from collate_loop_edges[OF 1 _ 3 m]
    show "0 \<le> fst e \<and> fst e < int (sum_list ?ns) \<and> 0 \<le> snd e \<and> snd e < int (sum_list ?ns)"
      by simp
  qed
  from res p l e show ?thesis by blast
qed

lemma example_graph_wf: "wf_mol 19 example_graph"
  by (simp add: wf_mol_def example_graph_def nrows_def len_atom_types_def)

lemma example_graph_nrows: "nrows (x example_graph) = 3"
  by (simp add: example_graph_def nrows_def)

theorem collate_fn_boundaries_witness:
  "\<exists>b. collate_fn [example_graph, example_graph] = Inr b \<and> ptr b = [0, 3, 6] \<and>
     (\<forall>e \<in> set (edge_index b). 0 \<le> fst e \<and> fst e < 6 \<and> 0 \<le> snd e \<and> snd e < 6)"
proof -
  have ne: "[example_graph, example_graph] \<noteq> []" by simp
  have wf: "\<forall>g \<in> set [example_graph, example_graph]. wf_mol 19 g"
    by (simp add: example_graph_wf)
  have small: "int (sum_list (map (\<lambda>g. nrows (x g)) [example_graph, example_graph])) < 2 ^ 31"
    by (simp add: example_graph_nrows)
  have u: "[0..<Suc (length [example_graph, example_graph])] = [0, 1, 2]"
    by (simp add: upt_rec)
  from collate_fn_boundaries[OF ne wf small]
  have "\<exists>b. collate_fn [example_graph, example_graph] = Inr b \<and> ptr b = [0, 3, 6] \<and>
     length (ptr b) = Suc (Suc (Suc 0)) \<and>
     (\<forall>e \<in> set (edge_index b). 0 \<le> fst e \<and> fst e < 6 \<and> 0 \<le> snd e \<and> snd e < 6)"
    unfolding u by (simp add: example_graph_nrows)
  then show ?thesis by blast
qed

subsection \<open>Padding\<close>

lemma py_int_neg_iff: "py_int r < 0 \<longleftrightarrow> r \<le> - 1"
proof (cases "0 \<le> r")
  case True
  then show ?thesis by (simp add: py_int_def)
next
  case False
  then show ?thesis by (simp add: py_int_def ceiling_less_iff)
qed

lemma py_int_le: "0 \<le> r \<Longrightarrow> real_of_int (py_int r) \<le> r"
  by (simp add: py_int_def)

lemma py_int_less: "real_of_int (py_int r) < r + 1"
  unfolding py_int_def by (auto; linarith)

lemma within_pad_nonneg:
  assumes "int n \<le> py_int (0.8 * real_of_int M) + 1"
  shows "0 \<le> py_int (0.8 * real_of_int M - real n + 1)"
proof -
  have "real n \<le> real_of_int (py_int (0.8 * real_of_int M)) + 1"
    using assms by (metis of_int_1 of_int_add of_int_le_iff of_int_of_nat_eq)
  also have "\<dots> < 0.8 * real_of_int M + 1 + 1"
    using py_int_less[of "0.8 * real_of_int M"] by simp
  finally have "\<not> (0.8 * real_of_int M - real n + 1 \<le> - 1)" by simp
  then show ?thesis using py_int_neg_iff[of "0.8 * real_of_int M - real n + 1"] by simp
qed

lemma qm9_transform_returns:
  assumes cap: "within_capacity M E d" and edges: "edge_index d \<noteq> []" and nodes: "batch d \<noteq> []"
  shows "qm9_transform M E d =
     Inr \<lparr>pos = (pos d)\<lparr>rows := rows (pos d) @
              replicate (nat (py_int (0.8 * real_of_int M - real (nrows (x d)) + 1)))
                (replicate (ncols (pos d)) 0)\<rparr>,
          x = (x d)\<lparr>rows := rows (x d) @
              replicate (nat (py_int (0.8 * real_of_int M - real (nrows (x d)) + 1)))
                (replicate (ncols (x d)) 0)\<rparr>,
          y = concat (rows (y d)) @ [0],
          edge_index = map (\<lambda>(s, t). (int32 s, int32 t)) (edge_index d) @
              replicate (nat (py_int (0.8 * real_of_int E - real (length (edge_index d)) + 1)))
                (int32 (Max (set (map fst (map (\<lambda>(s, t). (int32 s, int32 t)) (edge_index d)) @
                                  map snd (map (\<lambda>(s, t). (int32 s, int32 t)) (edge_index d)))) + 1),
                 int32 (Max (set (map fst (map (\<lambda>(s, t). (int32 s, int32 t)) (edge_index d)) @
                                  map snd (map (\<lambda>(s, t). (int32 s, int32 t)) (edge_index d)))) + 1)),
          edge_attr = (edge_attr d)\<lparr>rows := rows (edge_attr d) @
              replicate (nat (py_int (0.8 * real_of_int E - real (length (edge_index d)) + 1)))
                (replicate (ncols (edge_attr d)) 0)\<rparr>,
          graph_index = map int32 (batch d) @
              replicate (nat (py_int (0.8 * real_of_int M - real (nrows (x d)) + 1)))
                (int32 (last (map int32 (batch d)) + 1)),
          padding_mask = replicate (length (concat (rows (y d)))) 1 @ [0]\<rparr>"
proof -
  have n: "\<not> py_int (0.8 * real_of_int M - real (nrows (x d)) + 1) < 0"
    using cap within_pad_nonneg[of "nrows (x d)" M] by (simp add: within_capacity_def)
  have e: "\<not> py_int (0.8 * real_of_int E - real (length (edge_index d)) + 1) < 0"
    using cap within_pad_nonneg[of "length (edge_index d)" E] by (simp add: within_capacity_def)
  show ?thesis
    using n e edges nodes
    by (simp add: qm9_transform_def Let_def jnp_pad_rows_def jnp_max_def jnp_pad_edge_index_def)
qed

text \<open>
  C2 (as amended). For a batch within capacity that has at least one edge and one atom, and
  whose edge ids fit the 32 bit edge array with room for one more (below \<open>2^31 - 1\<close>), the
  transform returns, and the returned edge array is the real one followed by padding entries
  that all equal one plus the largest atom id occurring in the real edge array, a value
  strictly greater than every atom id occurring in a real edge. When moreover every edge id is
  below the atom count \<open>nrows (x d)\<close> and the highest-numbered atom \<open>nrows (x d) - 1\<close>
  occurs in some edge, the padding id is the atom count itself, strictly greater than every
  real atom id.
\<close>

theorem qm9_transform_sentinel:
  assumes cap: "within_capacity M E d" and edges: "edge_index d \<noteq> []" and nodes: "batch d \<noteq> []"
    and range: "\<forall>e \<in> set (edge_index d).
       - (2 ^ 31) \<le> fst e \<and> fst e < 2 ^ 31 - 1 \<and> - (2 ^ 31) \<le> snd e \<and> snd e < 2 ^ 31 - 1"
  shows "\<exists>g c. qm9_transform M E d = Inr g \<and>
     c = Max (set (map fst (edge_index d) @ map snd (edge_index d))) + 1 \<and>
     edge_index g = edge_index d @
       replicate (nat (py_int (0.8 * real_of_int E - real (length (edge_index d)) + 1))) (c, c) \<and>
     (\<forall>e \<in> set (edge_index d). fst e < c \<and> snd e < c) \<and>
     ((\<forall>e \<in> set (edge_index d). fst e < int (nrows (x d)) \<and> snd e < int (nrows (x d))) \<and>
      (\<exists>e \<in> set (edge_index d). fst e = int (nrows (x d)) - 1 \<or> snd e = int (nrows (x d)) - 1)
        \<longrightarrow> c = int (nrows (x d)) \<and> (\<forall>a. a < int (nrows (x d)) \<longrightarrow> a < c))"
proof -
  let ?es = "edge_index d"
  let ?ids = "set (map fst ?es @ map snd ?es)"
  let ?m = "Max ?ids"
  let ?n = "int (nrows (x d))"
  have same: "map (\<lambda>(s, t). (int32 s, int32 t)) ?es = ?es"
  proof (rule map_idI)
    fix e assume "e \<in> set ?es"
    with range have "int32 (fst e) = fst e" "int32 (snd e) = snd e"
      by (auto intro!: int32_id)
    then show "(case e of (s, t) \<Rightarrow> (int32 s, int32 t)) = e" by (cases e) simp
  qed
  have fin: "finite ?ids" and ne: "?ids \<noteq> {}" using edges by auto
  have mem: "?m \<in> ?ids" using fin ne by (rule Max_in)
  then have "- (2 ^ 31) \<le> ?m \<and> ?m < 2 ^ 31 - 1" using range by auto
  then have c: "int32 (?m + 1) = ?m + 1" by (intro int32_id) auto
  have below: "\<forall>e \<in> set ?es. fst e < ?m + 1 \<and> snd e < ?m + 1"
  proof
    fix e assume e: "e \<in> set ?es"
    then have "fst e \<in> ?ids" "snd e \<in> ?ids" by auto
    then have "fst e \<le> ?m" "snd e \<le> ?m" using fin by (auto intro: Max_ge)
    then show "fst e < ?m + 1 \<and> snd e < ?m + 1" by simp
  qed
  have last: "?m + 1 = ?n \<and> (\<forall>a. a < ?n \<longrightarrow> a < ?m + 1)"
    if wf: "\<forall>e \<in> set ?es. fst e < ?n \<and> snd e < ?n"
      and bonded: "\<exists>e \<in> set ?es. fst e = ?n - 1 \<or> snd e = ?n - 1"
  proof -
    from mem wf have up: "?m < ?n" by auto
    from bonded have "?n - 1 \<in> ?ids" by force
    then have "?n - 1 \<le> ?m" using fin by (rule Max_ge[rotated])
    with up have "?m + 1 = ?n" by simp
    then show ?thesis by simp
  qed
  from qm9_transform_returns[OF cap edges nodes]
  have r: "qm9_transform M E d = Inr g \<Longrightarrow>
      edge_index g = ?es @
        replicate (nat (py_int (0.8 * real_of_int E - real (length ?es) + 1))) (?m + 1, ?m + 1)" for g
    using same c by auto
  obtain g where g: "qm9_transform M E d = Inr g"
    using qm9_transform_returns[OF cap edges nodes] by blast
  from g r[OF g] below last show ?thesis by blast
qed

text \<open>
  C8. For a batch within capacity (with at least one edge and one atom) the transform
  returns; its target is the flattened stacked target followed by exactly one zero, and its
  \<open>padding_mask\<close> is a one for every real target entry followed by a single zero, which
  is its last entry and its only zero.
\<close>

theorem qm9_transform_mask:
  assumes cap: "within_capacity M E d" and edges: "edge_index d \<noteq> []" and nodes: "batch d \<noteq> []"
  shows "\<exists>g. qm9_transform M E d = Inr g \<and>
     y g = concat (rows (y d)) @ [0] \<and>
     padding_mask g = replicate (length (concat (rows (y d)))) 1 @ [0] \<and>
     length (padding_mask g) = length (y g) \<and>
     last (padding_mask g) = 0 \<and> count_list (padding_mask g) 0 = 1"
proof -
  have "count_list (replicate n (1 :: real) @ [0]) 0 = 1" for n
    by (induction n) auto
  with qm9_transform_returns[OF cap edges nodes] show ?thesis by simp
qed

lemma example_batch_within: "within_capacity 5 10 example_batch"
  by (simp add: within_capacity_def example_batch_def nrows_def py_int_def)

lemma example_batch_nonempty: "edge_index example_batch \<noteq> []" "batch example_batch \<noteq> []"
  by (simp_all add: example_batch_def)

theorem qm9_transform_sentinel_witness:
  "\<exists>g. qm9_transform 5 10 example_batch = Inr g \<and>
     edge_index g = [(1, 0), (0, 1), (2, 1), (1, 2), (3, 3), (3, 3), (3, 3), (3, 3), (3, 3)] \<and>
     Max (set (map fst (edge_index example_batch) @ map snd (edge_index example_batch))) + 1 =
       int (nrows (x example_batch))"
proof -
  have range: "\<forall>e \<in> set (edge_index example_batch).
       - (2 ^ 31) \<le> fst e \<and> fst e < 2 ^ 31 - 1 \<and> - (2 ^ 31) \<le> snd e \<and> snd e < 2 ^ 31 - 1"
    by (simp add: example_batch_def)
  have wf: "\<forall>e \<in> set (edge_index example_batch).
       fst e < int (nrows (x example_batch)) \<and> snd e < int (nrows (x example_batch))"
    by (simp add: example_batch_def nrows_def)
  have bonded: "\<exists>e \<in> set (edge_index example_batch).
       fst e = int (nrows (x example_batch)) - 1 \<or> snd e = int (nrows (x example_batch)) - 1"
    by (simp add: example_batch_def nrows_def)
  have k: "nat (py_int (0.8 * real_of_int 10 - real (length (edge_index example_batch)) + 1)) = 5"
    by (simp add: example_batch_def py_int_def)
  have m: "Max (set (map fst (edge_index example_batch) @ map snd (edge_index example_batch))) + 1 = 3"
    by (simp add: example_batch_def)
  have r: "replicate 5 (3 :: int, 3 :: int) = [(3, 3), (3, 3), (3, 3), (3, 3), (3, 3)]"
    by (simp add: numeral_nat)
  from qm9_transform_sentinel[OF example_batch_within example_batch_nonempty range]
  obtain g c where g: "qm9_transform 5 10 example_batch = Inr g"
    and c: "c = Max (set (map fst (edge_index example_batch) @ map snd (edge_index example_batch))) + 1"
    and e: "edge_index g = edge_index example_batch @
       replicate (nat (py_int (0.8 * real_of_int 10 - real (length (edge_index example_batch)) + 1))) (c, c)"
    and n: "(\<forall>e \<in> set (edge_index example_batch).
          fst e < int (nrows (x example_batch)) \<and> snd e < int (nrows (x example_batch))) \<and>
       (\<exists>e \<in> set (edge_index example_batch).
          fst e = int (nrows (x example_batch)) - 1 \<or> snd e = int (nrows (x example_batch)) - 1)
        \<longrightarrow> c = int (nrows (x example_batch)) \<and> (\<forall>a. a < int (nrows (x example_batch)) \<longrightarrow> a < c)"
    by blast
  from n wf bonded have "c = int (nrows (x example_batch))" by (rule conjunct1 [OF mp [OF _ conjI]])
  with c have 1: "Max (set (map fst (edge_index example_batch) @ map snd (edge_index example_batch))) + 1 =
       int (nrows (x example_batch))" by simp
  from c m have "c = 3" by simp
  with e have "edge_index g = edge_index example_batch @ replicate 5 (3, 3)" unfolding k by simp
  then have 2: "edge_index g = [(1, 0), (0, 1), (2, 1), (1, 2), (3, 3), (3, 3), (3, 3), (3, 3), (3, 3)]"
    unfolding r by (simp add: example_batch_def)
  from g 1 2 show ?thesis by blast
qed

lemma example_unbonded_pads:
  "py_int (0.8 * real_of_int 5 - real (nrows (x example_batch_unbonded)) + 1) = 2"
  "py_int (0.8 * real_of_int 10 - real (length (map (\<lambda>(s, t). (int32 s, int32 t)) (edge_index example_batch_unbonded))) + 1) = 7"
  by (simp_all add: example_batch_unbonded_def py_int_def nrows_def)

lemma example_unbonded_int32_edges:
  "map (\<lambda>(s, t). (int32 s, int32 t)) (edge_index example_batch_unbonded) = [(1, 0), (0, 1)]"
  by (simp add: example_batch_unbonded_def int32_def)

text \<open>
  C2 as stated fails: the padding id is taken from the edge array (\<open>edge_index.max() + 1\<close>),
  not from the atom count. In a batch of three atoms whose last atom has no bond the real
  edges are \<open>(1, 0)\<close> and \<open>(0, 1)\<close>, so the seven padding edges are \<open>(2, 2)\<close>, and
  2 is the id of the third real atom.
\<close>

theorem qm9_transform_sentinel_aliases:
  "within_capacity 5 10 example_batch_unbonded \<and>
   int (nrows (x example_batch_unbonded)) - 1 = 2 \<and>
   qm9_transform 5 10 example_batch_unbonded =
     Inr \<lparr>pos = \<lparr>ncols = 3, rows = [[0, 0, 0], [1, 0, 0], [5, 0, 0], [0, 0, 0], [0, 0, 0]]\<rparr>,
          x = \<lparr>ncols = 5, rows = [[0, 1, 0, 0, 0], [0, 1, 0, 0, 0], [0, 0, 0, 1, 0],
             [0, 0, 0, 0, 0], [0, 0, 0, 0, 0]]\<rparr>,
          y = [2, 0],
          edge_index = [(1, 0), (0, 1), (2, 2), (2, 2), (2, 2), (2, 2), (2, 2), (2, 2), (2, 2)],
          edge_attr = \<lparr>ncols = 4, rows = [[1, 0, 0, 0], [1, 0, 0, 0],
             [0, 0, 0, 0], [0, 0, 0, 0], [0, 0, 0, 0], [0, 0, 0, 0], [0, 0, 0, 0], [0, 0, 0, 0],
             [0, 0, 0, 0]]\<rparr>,
          graph_index = [0, 0, 0, 1, 1],
          padding_mask = [1, 0]\<rparr>"
proof -
  have 1: "within_capacity 5 10 example_batch_unbonded"
    by (simp add: within_capacity_def example_batch_unbonded_def nrows_def py_int_def)
  have 2: "int (nrows (x example_batch_unbonded)) - 1 = 2"
    by (simp add: example_batch_unbonded_def nrows_def)
  have 3: "qm9_transform 5 10 example_batch_unbonded =
     Inr \<lparr>pos = \<lparr>ncols = 3, rows = [[0, 0, 0], [1, 0, 0], [5, 0, 0], [0, 0, 0], [0, 0, 0]]\<rparr>,
          x = \<lparr>ncols = 5, rows = [[0, 1, 0, 0, 0], [0, 1, 0, 0, 0], [0, 0, 0, 1, 0],
             [0, 0, 0, 0, 0], [0, 0, 0, 0, 0]]\<rparr>,
          y = [2, 0],
          edge_index = [(1, 0), (0, 1), (2, 2), (2, 2), (2, 2), (2, 2), (2, 2), (2, 2), (2, 2)],
          edge_attr = \<lparr>ncols = 4, rows = [[1, 0, 0, 0], [1, 0, 0, 0],
             [0, 0, 0, 0], [0, 0, 0, 0], [0, 0, 0, 0], [0, 0, 0, 0], [0, 0, 0, 0], [0, 0, 0, 0],
             [0, 0, 0, 0]]\<rparr>,
          graph_index = [0, 0, 0, 1, 1],
          padding_mask = [1, 0]\<rparr>"
    unfolding qm9_transform_def Let_def example_unbonded_pads example_unbonded_int32_edges
    by (simp add: example_batch_unbonded_def jnp_pad_rows_def jnp_max_def jnp_pad_edge_index_def
        int32_def py_int_def numeral_nat)
  from 1 2 3 show ?thesis by blast
qed

theorem qm9_transform_mask_witness:
  "\<exists>g. qm9_transform 5 10 example_batch = Inr g \<and> y g = [2, 0] \<and> padding_mask g = [1, 0]"
proof -
  have yd: "concat (rows (y example_batch)) = [2]"
    by (simp add: example_batch_def)
  from qm9_transform_mask[OF example_batch_within example_batch_nonempty]
  obtain g where "qm9_transform 5 10 example_batch = Inr g"
    and "y g = concat (rows (y example_batch)) @ [0]"
    and "padding_mask g = replicate (length (concat (rows (y example_batch)))) 1 @ [0]"
    by blast
  then have "qm9_transform 5 10 example_batch = Inr g \<and> y g = [2, 0] \<and> padding_mask g = [1, 0]"
    unfolding yd by simp
  then show ?thesis by blast
qed

lemma jnp_pad_rows_prefix:
  "jnp_pad_rows k a = Inr a' \<Longrightarrow> take (nrows a) (rows a') = rows a \<and> nrows a \<le> nrows a'"
  by (auto simp: jnp_pad_rows_def nrows_def split: if_splits)

lemma jnp_pad_edge_index_prefix:
  "jnp_pad_edge_index k c es = Inr es' \<Longrightarrow> take (length es) es' = es \<and> length es \<le> length es'"
  by (auto simp: jnp_pad_edge_index_def split: if_splits)

lemma qm9_transform_negative_pad:
  assumes "0.8 * real_of_int M + 2 \<le> real (nrows (x d)) \<or>
           0.8 * real_of_int E + 2 \<le> real (length (edge_index d))"
  shows "qm9_transform M E d = Inl ValueError"
proof (cases "0.8 * real_of_int M + 2 \<le> real (nrows (x d))")
  case True
  then have "py_int (0.8 * real_of_int M - real (nrows (x d)) + 1) < 0"
    by (simp add: py_int_neg_iff)
  then show ?thesis
    by (simp add: qm9_transform_def Let_def jnp_pad_rows_def)
next
  case False
  with assms have "py_int (0.8 * real_of_int E - real (length (edge_index d)) + 1) < 0"
    by (simp add: py_int_neg_iff)
  then show ?thesis
    by (simp add: qm9_transform_def Let_def jnp_pad_rows_def jnp_max_def jnp_pad_edge_index_def
        split: sum.splits)
qed

lemma qm9_transform_keeps_rows:
  assumes "qm9_transform M E d = Inr g"
  shows "take (nrows (pos d)) (rows (pos g)) = rows (pos d) \<and>
     take (nrows (x d)) (rows (x g)) = rows (x d) \<and>
     take (nrows (edge_attr d)) (rows (edge_attr g)) = rows (edge_attr d) \<and>
     take (length (edge_index d)) (edge_index g) =
       map (\<lambda>(s, t). (int32 s, int32 t)) (edge_index d) \<and>
     nrows (x d) \<le> nrows (x g) \<and> length (edge_index d) \<le> length (edge_index g)"
proof -
  let ?np = "py_int (0.8 * real_of_int M - real (nrows (x d)) + 1)"
  let ?ep = "py_int (0.8 * real_of_int E - real (length (edge_index d)) + 1)"
  let ?es = "map (\<lambda>(s, t). (int32 s, int32 t)) (edge_index d)"
  from assms obtain pos' x' m es' ea' where
    1: "jnp_pad_rows ?np (pos d) = Inr pos'" and 2: "jnp_pad_rows ?np (x d) = Inr x'"
    and 3: "jnp_max ?es = Inr m"
    and 4: "jnp_pad_edge_index ?ep (int32 (m + 1)) ?es = Inr es'"
    and 5: "jnp_pad_rows ?ep (edge_attr d) = Inr ea'"
    and g: "pos g = pos'" "x g = x'" "edge_index g = es'" "edge_attr g = ea'"
    by (auto simp: qm9_transform_def Let_def split: sum.splits if_splits)
  from jnp_pad_rows_prefix[OF 1] jnp_pad_rows_prefix[OF 2] jnp_pad_rows_prefix[OF 5]
    jnp_pad_edge_index_prefix[OF 4] g
  show ?thesis by simp
qed

text \<open>
  C1 (as amended). If the real node count is at least \<open>0.8 * max_batch_nodes + 2\<close> or
  the real edge count is at least \<open>0.8 * max_batch_edges + 2\<close>, the computed pad width is
  negative and the transform fails with the \<open>ValueError\<close> of the padding routine; and
  whenever the transform returns, the real rows of every array are the leading rows of the
  padded array, so nothing is cropped.
\<close>

theorem qm9_transform_over_capacity:
  "(0.8 * real_of_int M + 2 \<le> real (nrows (x d)) \<or>
    0.8 * real_of_int E + 2 \<le> real (length (edge_index d))
      \<longrightarrow> qm9_transform M E d = Inl ValueError) \<and>
   (\<forall>g. qm9_transform M E d = Inr g \<longrightarrow>
      take (nrows (pos d)) (rows (pos g)) = rows (pos d) \<and>
      take (nrows (x d)) (rows (x g)) = rows (x d) \<and>
      take (nrows (edge_attr d)) (rows (edge_attr g)) = rows (edge_attr d) \<and>
      take (length (edge_index d)) (edge_index g) =
        map (\<lambda>(s, t). (int32 s, int32 t)) (edge_index d) \<and>
      nrows (x d) \<le> nrows (x g) \<and> length (edge_index d) \<le> length (edge_index g))"
  using qm9_transform_negative_pad[of M d E] qm9_transform_keeps_rows[of M E d] by blast

lemma example_pads:
  "py_int (0.8 * real_of_int 2 - real (nrows (x example_batch)) + 1) = 0"
  "py_int (0.8 * real_of_int 10 - real (length (map (\<lambda>(s, t). (int32 s, int32 t)) (edge_index example_batch))) + 1) = 5"
  "py_int (0.8 * real_of_int 2) + 1 = 2"
  by (simp_all add: example_batch_def py_int_def nrows_def)

lemma example_int32_edges:
  "map (\<lambda>(s, t). (int32 s, int32 t)) (edge_index example_batch) = [(1, 0), (0, 1), (2, 1), (1, 2)]"
  by (simp add: example_batch_def int32_def)

text \<open>
  C1 as stated fails: with \<open>max_batch_nodes = 2\<close> the threshold \<open>int(0.8 * 2) + 1\<close> is
  2, the batch has 3 atoms, and \<open>int(1.6 - 3 + 1) = int(-0.4) = 0\<close>; the transform returns
  the batch with no node padding and no error.
\<close>

theorem qm9_transform_gap_returns:
  "py_int (0.8 * real_of_int 2) + 1 < int (nrows (x example_batch)) \<and>
   qm9_transform 2 10 example_batch =
     Inr \<lparr>pos = \<lparr>ncols = 3, rows = [[0, 0, 0], [1, 0, 0], [2, 0, 0]]\<rparr>,
          x = \<lparr>ncols = 5, rows = [[0, 1, 0, 0, 0], [0, 1, 0, 0, 0], [0, 0, 0, 1, 0]]\<rparr>,
          y = [2, 0],
          edge_index = [(1, 0), (0, 1), (2, 1), (1, 2), (3, 3), (3, 3), (3, 3), (3, 3), (3, 3)],
          edge_attr = \<lparr>ncols = 4, rows = [[1, 0, 0, 0], [1, 0, 0, 0], [0, 1, 0, 0], [0, 1, 0, 0],
             [0, 0, 0, 0], [0, 0, 0, 0], [0, 0, 0, 0], [0, 0, 0, 0], [0, 0, 0, 0]]\<rparr>,
          graph_index = [0, 0, 0],
          padding_mask = [1, 0]\<rparr>"
proof -
  have 1: "py_int (0.8 * real_of_int 2) + 1 < int (nrows (x example_batch))"
    unfolding example_pads by (simp add: example_batch_def nrows_def)
  have 2: "qm9_transform 2 10 example_batch = Inr \<lparr>pos = \<lparr>ncols = 3, rows = [[0, 0, 0], [1, 0, 0], [2, 0, 0]]\<rparr>,
          x = \<lparr>ncols = 5, rows = [[0, 1, 0, 0, 0], [0, 1, 0, 0, 0], [0, 0, 0, 1, 0]]\<rparr>,
          y = [2, 0],
          edge_index = [(1, 0), (0, 1), (2, 1), (1, 2), (3, 3), (3, 3), (3, 3), (3, 3), (3, 3)],
          edge_attr = \<lparr>ncols = 4, rows = [[1, 0, 0, 0], [1, 0, 0, 0], [0, 1, 0, 0], [0, 1, 0, 0],
             [0, 0, 0, 0], [0, 0, 0, 0], [0, 0, 0, 0], [0, 0, 0, 0], [0, 0, 0, 0]]\<rparr>,
          graph_index = [0, 0, 0],
          padding_mask = [1, 0]\<rparr>"
    unfolding qm9_transform_def Let_def example_pads example_int32_edges
    by (simp add: example_batch_def jnp_pad_rows_def jnp_max_def jnp_pad_edge_index_def
        int32_def py_int_def numeral_nat)
  from 1 2 show ?thesis by blast
qed

theorem qm9_transform_over_capacity_witness:
  "qm9_transform 1 10 example_batch = Inl ValueError \<and>
   (\<exists>g. qm9_transform 5 10 example_batch = Inr g \<and>
        take (nrows (x example_batch)) (rows (x g)) = rows (x example_batch))"
proof -
  have over: "0.8 * real_of_int 1 + 2 \<le> real (nrows (x example_batch)) \<or>
      0.8 * real_of_int 10 + 2 \<le> real (length (edge_index example_batch))"
    by (simp add: example_batch_def nrows_def)
  obtain g where g: "qm9_transform 5 10 example_batch = Inr g"
    using qm9_transform_returns[OF example_batch_within example_batch_nonempty] by blast
  from qm9_transform_over_capacity[of 1 example_batch 10] over
  have a: "qm9_transform 1 10 example_batch = Inl ValueError" by blast
  from qm9_transform_over_capacity[of 5 example_batch 10] g
  have "take (nrows (x example_batch)) (rows (x g)) = rows (x example_batch)" by blast
  with a g show ?thesis by blast
qed

end
